theory Spec2Isabelle
  imports Complex_Main
begin

section \<open>Numbers and strings\<close>

text \<open>
  The simulator computes with JavaScript numbers. They are modelled here as the
  real numbers: every arithmetic operation and every call of \<open>Math.sqrt\<close>,
  \<open>Math.cos\<close>, \<open>Math.sin\<close>, \<open>Math.exp\<close>, \<open>Math.tanh\<close> is the exact
  mathematical function, so the theorems below are statements about the formulas
  of the program in exact arithmetic; the rounding of the IEEE doubles and the
  values NaN and Infinity are outside the model. Array indices and counts
  are natural numbers. \<open>Math.random()\<close> and \<open>Date.now()\<close> are inputs of the
  functions that call them.
\<close>

text \<open>The decimal text of an index, as a template literal \<open>`${i}`\<close> prints it.\<close>

definition digit_char :: "nat \<Rightarrow> char" where
  "digit_char d = (''0123456789'' ! d)"

fun show_nat :: "nat \<Rightarrow> string" where
  "show_nat n = (if n < 10 then [digit_char n] else show_nat (n div 10) @ [digit_char (n mod 10)])"

declare show_nat.simps [simp del]

section \<open>The class Qubit\<close>

text \<open>An entry of \<open>entangledWith\<close>: a plain index inside the circuit, or the string id
  of a qubit of the other circuit.\<close>

datatype partner = Local nat | Remote string

record Qubit =
  qubit_id :: string
  state :: "real \<times> real"
  phase :: real
  entangled :: bool
  entangledWith :: "partner list"
  appliedGates :: "string list"

text \<open>The constructor, with the default initial state \<open>[1, 0]\<close> (the only one in use).
  The state is always an array of two numbers: a pair.\<close>

definition new_Qubit :: "string \<Rightarrow> Qubit" where
  "new_Qubit i = \<lparr>qubit_id = i, state = (1, 0), phase = 0, entangled = False,
     entangledWith = [], appliedGates = []\<rparr>"

definition hadamard :: "Qubit \<Rightarrow> Qubit" where
  "hadamard q = (case state q of (a, b) \<Rightarrow>
     q\<lparr>state := ((a + b) / sqrt 2, (a - b) / sqrt 2),
       appliedGates := appliedGates q @ [''H'']\<rparr>)"

definition pauliX :: "Qubit \<Rightarrow> Qubit" where
  "pauliX q = q\<lparr>state := (snd (state q), fst (state q)),
     appliedGates := appliedGates q @ [''X'']\<rparr>"

definition pauliY :: "Qubit \<Rightarrow> Qubit" where
  "pauliY q = (case state q of (a, b) \<Rightarrow>
     q\<lparr>state := (- b, a), appliedGates := appliedGates q @ [''Y'']\<rparr>)"

definition pauliZ :: "Qubit \<Rightarrow> Qubit" where
  "pauliZ q = q\<lparr>state := (fst (state q), - snd (state q)),
     appliedGates := appliedGates q @ [''Z'']\<rparr>"

definition rotationX :: "real \<Rightarrow> Qubit \<Rightarrow> Qubit" where
  "rotationX theta q = (case state q of (a, b) \<Rightarrow>
     (let cosHalf = cos (theta / 2); sinHalf = sin (theta / 2)
      in q\<lparr>state := (a * cosHalf - b * sinHalf, a * sinHalf + b * cosHalf),
            appliedGates := appliedGates q @ [''Rx'']\<rparr>))"

definition rotationY :: "real \<Rightarrow> Qubit \<Rightarrow> Qubit" where
  "rotationY theta q = (case state q of (a, b) \<Rightarrow>
     (let cosHalf = cos (theta / 2); sinHalf = sin (theta / 2)
      in q\<lparr>state := (a * cosHalf - b * sinHalf, a * sinHalf + b * cosHalf),
            appliedGates := appliedGates q @ [''Ry'']\<rparr>))"

definition rotationZ :: "real \<Rightarrow> Qubit \<Rightarrow> Qubit" where
  "rotationZ theta q = (case state q of (a, b) \<Rightarrow>
     (let cosHalf = cos (theta / 2); sinHalf = sin (theta / 2)
      in q\<lparr>state := (a * cosHalf, b * cosHalf + b * sinHalf * sin (pi / 2)),
            phase := phase q + theta,
            appliedGates := appliedGates q @ [''Rz'']\<rparr>))"

definition tGate :: "Qubit \<Rightarrow> Qubit" where
  "tGate q = (let ph = pi / 4
     in q\<lparr>state := (fst (state q), snd (state q) * cos ph + snd (state q) * sin ph),
           phase := phase q + ph,
           appliedGates := appliedGates q @ [''T'']\<rparr>)"

definition getProbability1 :: "Qubit \<Rightarrow> real" where
  "getProbability1 q = \<bar>snd (state q)\<bar> ^ 2"

definition getProbability0 :: "Qubit \<Rightarrow> real" where
  "getProbability0 q = \<bar>fst (state q)\<bar> ^ 2"

text \<open>\<open>measure\<close>: the argument \<open>random\<close> is the value drawn by \<open>Math.random()\<close>.
  The result is the returned bit and the qubit after the collapse.\<close>

definition measure_qubit :: "real \<Rightarrow> Qubit \<Rightarrow> nat \<times> Qubit" where
  "measure_qubit random q =
     (let prob0 = \<bar>fst (state q)\<bar> ^ 2
      in if random < prob0 then (0, q\<lparr>state := (1, 0)\<rparr>) else (1, q\<lparr>state := (0, 1)\<rparr>))"

definition reset :: "Qubit \<Rightarrow> Qubit" where
  "reset q = q\<lparr>state := (1, 0), phase := 0, entangled := False,
     entangledWith := [], appliedGates := []\<rparr>"

section \<open>The class QuantumCircuit\<close>

text \<open>The gate selection: one flag per gate type and qubit, four SWAP toggles for the
  adjacent pairs, three CCNOT toggles for the adjacent triples.\<close>

record SelectedGates =
  g_hadamard :: "bool list"
  g_pauliX :: "bool list"
  g_pauliY :: "bool list"
  g_pauliZ :: "bool list"
  g_rotationX :: "bool list"
  g_rotationY :: "bool list"
  g_rotationZ :: "bool list"
  g_tGate :: "bool list"
  g_swap :: "bool list"
  g_ccnot :: "bool list"

record Snapshot =
  timestamp :: int
  results :: "nat list"
  probabilities :: "real list"

record QuantumCircuit =
  numQubits :: nat
  circuitId :: string
  qubits :: "Qubit list"
  measurementHistory :: "Snapshot list"
  selectedGates :: "SelectedGates option"
  interCircuitConnections :: "(nat \<times> nat) list"

text \<open>Reading a flag: an index past the end of the array reads \<open>undefined\<close>, which
  an \<open>if\<close> takes as false.\<close>

definition flag_at :: "bool list \<Rightarrow> nat \<Rightarrow> bool" where
  "flag_at xs i = (i < length xs \<and> xs ! i)"

definition gate_if :: "bool \<Rightarrow> (Qubit \<Rightarrow> Qubit) \<Rightarrow> Qubit \<Rightarrow> Qubit" where
  "gate_if b g q = (if b then g q else q)"

text \<open>The body of the \<open>forEach\<close> over the qubits in \<open>setupCircuit\<close>: the selected
  single-qubit gates of qubit \<open>i\<close>, in the order of the source.\<close>

definition apply_selected :: "SelectedGates \<Rightarrow> nat \<Rightarrow> Qubit \<Rightarrow> Qubit" where
  "apply_selected sel i q =
     (let q1 = gate_if (flag_at (g_hadamard sel) i) hadamard q;
          q2 = gate_if (flag_at (g_pauliX sel) i) pauliX q1;
          q3 = gate_if (flag_at (g_pauliY sel) i) pauliY q2;
          q4 = gate_if (flag_at (g_pauliZ sel) i) pauliZ q3;
          q5 = gate_if (flag_at (g_rotationX sel) i) (rotationX (pi / 4)) q4;
          q6 = gate_if (flag_at (g_rotationY sel) i) (rotationY (pi / 4)) q5;
          q7 = gate_if (flag_at (g_rotationZ sel) i) (rotationZ (pi / 4)) q6
      in gate_if (flag_at (g_tGate sel) i) tGate q7)"

text \<open>An assignment to a field of \<open>this.qubits[i]\<close>. The methods guard their indices
  with \<open>numQubits\<close>, which is the length of \<open>qubits\<close> in every circuit the constructor
  builds and after every method (the lemmas on \<open>core\<close> below); the theorems are about
  such circuits.\<close>

definition upd_qubit :: "nat \<Rightarrow> (Qubit \<Rightarrow> Qubit) \<Rightarrow> QuantumCircuit \<Rightarrow> QuantumCircuit" where
  "upd_qubit i f c = c\<lparr>qubits := (qubits c)[i := f (qubits c ! i)]\<rparr>"

definition entangleQubits :: "nat \<Rightarrow> nat \<Rightarrow> QuantumCircuit \<Rightarrow> QuantumCircuit" where
  "entangleQubits i j c =
     (if i < numQubits c \<and> j < numQubits c then
        (let c1 = upd_qubit i (\<lambda>q. q\<lparr>entangled := True\<rparr>) c;
             c2 = upd_qubit j (\<lambda>q. q\<lparr>entangled := True\<rparr>) c1;
             c3 = upd_qubit i (\<lambda>q. q\<lparr>entangledWith := entangledWith q @ [Local j]\<rparr>) c2
         in upd_qubit j (\<lambda>q. q\<lparr>entangledWith := entangledWith q @ [Local i]\<rparr>) c3)
      else c)"

definition createIntraCircuitEntanglement :: "QuantumCircuit \<Rightarrow> QuantumCircuit" where
  "createIntraCircuitEntanglement c =
     foldl (\<lambda>c (i, j). if i < numQubits c \<and> j < numQubits c then entangleQubits i j c else c)
       c [(0, 1), (2, 3), (1, 4)]"

definition swap :: "nat \<Rightarrow> nat \<Rightarrow> QuantumCircuit \<Rightarrow> QuantumCircuit" where
  "swap i j c =
     (if i < numQubits c \<and> j < numQubits c then
        (let tempState = state (qubits c ! i);
             c1 = upd_qubit i (\<lambda>q. q\<lparr>state := state (qubits c ! j)\<rparr>) c;
             c2 = upd_qubit j (\<lambda>q. q\<lparr>state := tempState\<rparr>) c1;
             tempPhase = phase (qubits c2 ! i);
             c3 = upd_qubit i (\<lambda>q. q\<lparr>phase := phase (qubits c2 ! j)\<rparr>) c2
         in upd_qubit j (\<lambda>q. q\<lparr>phase := tempPhase\<rparr>) c3)
      else c)"

definition ccnot :: "nat \<Rightarrow> nat \<Rightarrow> nat \<Rightarrow> QuantumCircuit \<Rightarrow> QuantumCircuit" where
  "ccnot c1 c2 t c =
     (if c1 < numQubits c \<and> c2 < numQubits c \<and> t < numQubits c then
        (let d = entangleQubits c1 c2 (entangleQubits c2 t (entangleQubits c1 t c))
         in if getProbability1 (qubits d ! c1) > 0.5 \<and> getProbability1 (qubits d ! c2) > 0.5
            then upd_qubit t pauliX d else d)
      else c)"

definition setupCircuit :: "QuantumCircuit \<Rightarrow> QuantumCircuit" where
  "setupCircuit c =
     (case selectedGates c of
        None \<Rightarrow> c
      | Some sel \<Rightarrow>
          (let c1 = c\<lparr>qubits := map (\<lambda>(i, q). apply_selected sel i q) (enumerate 0 (qubits c))\<rparr>;
               c2 = createIntraCircuitEntanglement c1;
               c3 = foldl (\<lambda>d (i, isSwap). if isSwap then swap i (i + 1) d else d)
                      c2 (enumerate 0 (g_swap sel))
           in foldl (\<lambda>d (i, isCCNOT). if isCCNOT then ccnot i (i + 1) (i + 2) d else d)
                c3 (enumerate 0 (g_ccnot sel))))"

text \<open>The constructor: \<open>new QuantumCircuit(numQubits, circuitId, selectedGates)\<close>.\<close>

definition new_QuantumCircuit :: "nat \<Rightarrow> string \<Rightarrow> SelectedGates option \<Rightarrow> QuantumCircuit" where
  "new_QuantumCircuit n cid sel =
     setupCircuit \<lparr>numQubits = n, circuitId = cid,
       qubits = map (\<lambda>i. new_Qubit (cid @ show_nat i)) [0..<n],
       measurementHistory = [], selectedGates = sel, interCircuitConnections = []\<rparr>"

text \<open>One pair of \<open>createInterCircuitEntanglement\<close>, on the receiving circuit and the
  other circuit, which are two distinct objects (as in the component, where they are
  circuit A and circuit B).\<close>

definition interEntanglePair ::
  "QuantumCircuit \<times> QuantumCircuit \<Rightarrow> nat \<times> nat \<Rightarrow> QuantumCircuit \<times> QuantumCircuit" where
  "interEntanglePair cs p =
     (case cs of (this, otherCircuit) \<Rightarrow> case p of (thisQubit, otherQubit) \<Rightarrow>
        if thisQubit < numQubits this \<and> otherQubit < numQubits otherCircuit then
          (let thisState = state (qubits this ! thisQubit);
               otherState = state (qubits otherCircuit ! otherQubit);
               avgState = ((fst thisState + fst otherState) / sqrt 2,
                           (snd thisState + snd otherState) / sqrt 2);
               this1 = upd_qubit thisQubit (\<lambda>q. q\<lparr>state := avgState\<rparr>) this;
               other1 = upd_qubit otherQubit (\<lambda>q. q\<lparr>state := avgState\<rparr>) otherCircuit;
               this2 = upd_qubit thisQubit (\<lambda>q. q\<lparr>entangled := True\<rparr>) this1;
               other2 = upd_qubit otherQubit (\<lambda>q. q\<lparr>entangled := True\<rparr>) other1;
               this3 = upd_qubit thisQubit (\<lambda>q. q\<lparr>entangledWith := entangledWith q @
                          [Remote (circuitId otherCircuit @ show_nat otherQubit)]\<rparr>) this2;
               other3 = upd_qubit otherQubit (\<lambda>q. q\<lparr>entangledWith := entangledWith q @
                          [Remote (circuitId this @ show_nat thisQubit)]\<rparr>) other2
           in (this3, other3))
        else (this, otherCircuit))"

definition createInterCircuitEntanglement ::
  "QuantumCircuit \<Rightarrow> QuantumCircuit \<Rightarrow> (nat \<times> nat) list \<Rightarrow> QuantumCircuit \<times> QuantumCircuit" where
  "createInterCircuitEntanglement this otherCircuit connections =
     foldl interEntanglePair (this\<lparr>interCircuitConnections := connections\<rparr>, otherCircuit)
       connections"

definition circuit_evolve :: "real \<Rightarrow> QuantumCircuit \<Rightarrow> QuantumCircuit" where
  "circuit_evolve dt c =
     c\<lparr>qubits := map (\<lambda>(i, q).
          (let omega = 0.1 + real i * 0.03;
               q1 = q\<lparr>phase := phase q + omega * dt\<rparr>;
               angle = 0.008 * sin (phase q1)
           in rotationZ angle q1)) (enumerate 0 (qubits c))\<rparr>"

text \<open>\<open>measureAll\<close>: \<open>rnd i\<close> is the value \<open>Math.random()\<close> returns in the measurement of
  qubit \<open>i\<close>, \<open>now\<close> the value of \<open>Date.now()\<close>. The result is the returned array and the
  circuit afterwards.\<close>

definition measureAll :: "(nat \<Rightarrow> real) \<Rightarrow> int \<Rightarrow> QuantumCircuit \<Rightarrow> nat list \<times> QuantumCircuit" where
  "measureAll rnd now c =
     (let ms = map (\<lambda>(i, q). measure_qubit (rnd i) q) (enumerate 0 (qubits c));
          res = map fst ms;
          c1 = c\<lparr>qubits := map snd ms\<rparr>;
          h = measurementHistory c1 @
                [\<lparr>timestamp = now, results = res,
                  probabilities = map getProbability1 (qubits c1)\<rparr>];
          h' = (if length h > 100 then tl h else h)
      in (res, c1\<lparr>measurementHistory := h'\<rparr>))"

definition getSystemProbability :: "QuantumCircuit \<Rightarrow> real" where
  "getSystemProbability c = foldl (\<lambda>prob qubit. prob * getProbability1 qubit) 1 (qubits c)"

definition resetCircuit :: "QuantumCircuit \<Rightarrow> QuantumCircuit" where
  "resetCircuit c =
     setupCircuit (c\<lparr>qubits := map reset (qubits c), measurementHistory := [],
       interCircuitConnections := []\<rparr>)"

section \<open>Sequences of method calls\<close>

text \<open>The methods of a circuit, as operations on its state. The two last ones are a call
  of \<open>createInterCircuitEntanglement\<close> seen from the receiving circuit and from the
  circuit passed as argument.\<close>

datatype circuit_op =
    Evolve real
  | MeasureAll "nat \<Rightarrow> real" int
  | ResetCircuit
  | SetupCircuit
  | Swap nat nat
  | Ccnot nat nat nat
  | EntangleQubits nat nat
  | CreateIntraCircuitEntanglement
  | InterEntangleWith QuantumCircuit "(nat \<times> nat) list"
  | InterEntangledBy QuantumCircuit "(nat \<times> nat) list"

fun apply_op :: "QuantumCircuit \<Rightarrow> circuit_op \<Rightarrow> QuantumCircuit" where
  "apply_op c (Evolve dt) = circuit_evolve dt c"
| "apply_op c (MeasureAll rnd now) = snd (measureAll rnd now c)"
| "apply_op c ResetCircuit = resetCircuit c"
| "apply_op c SetupCircuit = setupCircuit c"
| "apply_op c (Swap i j) = swap i j c"
| "apply_op c (Ccnot c1 c2 t) = ccnot c1 c2 t c"
| "apply_op c (EntangleQubits i j) = entangleQubits i j c"
| "apply_op c CreateIntraCircuitEntanglement = createIntraCircuitEntanglement c"
| "apply_op c (InterEntangleWith other conns) = fst (createInterCircuitEntanglement c other conns)"
| "apply_op c (InterEntangledBy receiver conns) = snd (createInterCircuitEntanglement receiver c conns)"

definition run_ops :: "QuantumCircuit \<Rightarrow> circuit_op list \<Rightarrow> QuantumCircuit" where
  "run_ops c ops = foldl apply_op c ops"

text \<open>The fields no gate touches, and the ids of the qubits.\<close>

definition frame ::
  "QuantumCircuit \<Rightarrow> nat \<times> string \<times> SelectedGates option \<times> Snapshot list \<times> (nat \<times> nat) list \<times> string list" where
  "frame c = (numQubits c, circuitId c, selectedGates c, measurementHistory c,
     interCircuitConnections c, map qubit_id (qubits c))"

text \<open>What no method changes: the size, the tag, the selection and the ids.\<close>

definition core :: "QuantumCircuit \<Rightarrow> nat \<times> string \<times> SelectedGates option \<times> string list" where
  "core c = (numQubits c, circuitId c, selectedGates c, map qubit_id (qubits c))"

section \<open>The gate selections of the component\<close>

text \<open>\<open>initialGates\<close> has every toggle off; \<open>freshGates\<close> (of \<open>handleClearGates\<close>) has
  only \<open>hadamard\<close> on, for all five qubits.\<close>

definition initialGates :: SelectedGates where
  "initialGates = \<lparr>g_hadamard = replicate 5 False, g_pauliX = replicate 5 False,
     g_pauliY = replicate 5 False, g_pauliZ = replicate 5 False,
     g_rotationX = replicate 5 False, g_rotationY = replicate 5 False,
     g_rotationZ = replicate 5 False, g_tGate = replicate 5 False,
     g_swap = replicate 4 False, g_ccnot = replicate 3 False\<rparr>"

definition freshGates :: SelectedGates where
  "freshGates = initialGates\<lparr>g_hadamard := [True, True, True, True, True]\<rparr>"

section \<open>The class QuantumLaminarFlow\<close>

record MasaInformativaLayer =
  depth :: real
  density :: "real list list"
  velocityField :: "(real \<times> real) list list"
  entanglementMatrix :: "real list list"

record QuantumStreamline =
  coordinates :: "(real \<times> real) list"
  probabilityDensity :: "real list"
  streamline_phase :: "real list"
  coherenceLength :: real

text \<open>The fields \<open>nx\<close>, \<open>ny\<close>, \<open>Lx\<close>, \<open>Ly\<close>, \<open>x\<close>, \<open>y\<close>, \<open>time\<close> of the class are
  \<open>grid_nx\<close>, \<open>grid_ny\<close>, \<open>dom_Lx\<close>, \<open>dom_Ly\<close>, \<open>grid_x\<close>, \<open>grid_y\<close>, \<open>flow_time\<close> here.
  \<open>gridSize\<close> and \<open>domainSize\<close> hold the same values again, and \<open>hbar\<close> is never read:
  they are left out.\<close>

record QuantumLaminarFlow =
  grid_nx :: nat
  grid_ny :: nat
  dom_Lx :: real
  dom_Ly :: real
  numLayers :: nat
  viscosityParam :: real
  quantumCircuitA :: QuantumCircuit
  quantumCircuitB :: "QuantumCircuit option"
  dualCircuitMode :: bool
  grid_x :: "real list"
  grid_y :: "real list"
  flow_time :: real
  masaInformativaLayers :: "MasaInformativaLayer list"
  streamlines :: "QuantumStreamline list"
  informationalReynolds :: real

text \<open>The fixed parameters of the component.\<close>

definition GRID_SIZE :: nat where
  "GRID_SIZE = 32"

definition NUM_LAYERS :: nat where
  "NUM_LAYERS = 5"

definition VISCOSITY :: real where
  "VISCOSITY = 0.5"

definition ACTIVE_LAYER :: nat where
  "ACTIVE_LAYER = 4"

text \<open>
  Where the JavaScript reads a property of \<open>undefined\<close> it throws a \<open>TypeError\<close>. Where
  it reads a missing array cell as a number it goes on computing with NaN, for which the
  real numbers have no value: the model stops there with \<open>NotANumber\<close>.
  \<open>InvalidCharacterError\<close> is what \<open>atob\<close> throws, \<open>SyntaxError\<close> what \<open>JSON.parse\<close> throws.
\<close>

datatype js_error = TypeError | NotANumber | InvalidCharacterError | SyntaxError

definition computeQuantumProbabilityDensity ::
  "QuantumLaminarFlow \<Rightarrow> (real \<times> real) list \<Rightarrow> nat \<Rightarrow> real list" where
  "computeQuantumProbabilityDensity f coords streamlineId =
     (if length coords = 0 then []
      else
        (let probDensity = map (\<lambda>(idx, coord).
               (let isCircuitB = (dualCircuitMode f \<and>
                      streamlineId \<ge> (if dualCircuitMode f then 10 else 15));
                    circuit = (if isCircuitB then quantumCircuitB f else Some (quantumCircuitA f));
                    quantumProb =
                      (case circuit of
                         None \<Rightarrow> 0.5
                       | Some c \<Rightarrow>
                           (let qubitIdx = streamlineId mod 5
                            in if qubitIdx < length (qubits c) then
                                 (let t = real idx / real (length coords)
                                  in getProbability1 (qubits c ! qubitIdx) *
                                     (1 + 0.4 * sin (4 * pi * t + phase (qubits c ! qubitIdx))))
                               else 0.5))
                in max 0.1 quantumProb)) (enumerate 0 coords);
             sum = foldl (\<lambda>a b. a + b) 0 probDensity
         in if sum > 0 then map (\<lambda>p. p / sum) probDensity else probDensity))"

definition segment_length :: "real \<times> real \<Rightarrow> real \<times> real \<Rightarrow> real" where
  "segment_length p q = sqrt ((fst q - fst p) * (fst q - fst p) + (snd q - snd p) * (snd q - snd p))"

text \<open>The running sums of the segment lengths, \<open>distances\<close> in \<open>computeQuantumPhase\<close>.\<close>

fun distances_from :: "real \<Rightarrow> real \<times> real \<Rightarrow> (real \<times> real) list \<Rightarrow> real list" where
  "distances_from d p [] = []"
| "distances_from d p (q # qs) = (d + segment_length p q) # distances_from (d + segment_length p q) q qs"

definition computeQuantumPhase ::
  "QuantumLaminarFlow \<Rightarrow> (real \<times> real) list \<Rightarrow> nat \<Rightarrow> real list" where
  "computeQuantumPhase f coords streamlineId =
     (if length coords < 2 then replicate (length coords) 0
      else
        (let distances = 0 # distances_from 0 (hd coords) (tl coords);
             quantumPhase0 = 2 * pi * real streamlineId / (if dualCircuitMode f then 20 else 15);
             isCircuitB = (dualCircuitMode f \<and> streamlineId \<ge> 10);
             circuit = (if isCircuitB then quantumCircuitB f else Some (quantumCircuitA f));
             quantumPhase =
               (case circuit of
                  None \<Rightarrow> quantumPhase0
                | Some c \<Rightarrow>
                    (let qubitIdx = streamlineId mod 5
                     in if qubitIdx < length (qubits c)
                        then quantumPhase0 + phase (qubits c ! qubitIdx) else quantumPhase0))
         in map (\<lambda>d. d * 2.5 + quantumPhase) distances))"

definition computeCoherenceLength :: "QuantumLaminarFlow \<Rightarrow> (real \<times> real) list \<Rightarrow> real" where
  "computeCoherenceLength f coords =
     (if length coords < 2 then 1.0
      else
        (let totalLength = foldl (\<lambda>total (p, q).
                 total + sqrt ((fst q - fst p)\<^sup>2 + (snd q - snd p)\<^sup>2)) 0 (zip coords (tl coords));
             qc1 = 1.0 + getSystemProbability (quantumCircuitA f) * 1.5;
             quantumCoherence =
               (case quantumCircuitB f of
                  Some b \<Rightarrow> if dualCircuitMode f then qc1 + getSystemProbability b * 1.2 else qc1
                | None \<Rightarrow> qc1)
         in totalLength * exp (- totalLength / 9.0) * quantumCoherence + 0.5))"

definition interpolateVelocity ::
  "QuantumLaminarFlow \<Rightarrow> real \<times> real \<Rightarrow> js_error + (real \<times> real)" where
  "interpolateVelocity f point =
     (if length (masaInformativaLayers f) = 0 then Inr (0, 0)
      else if \<not> ACTIVE_LAYER < length (masaInformativaLayers f) then Inl TypeError
      else
        (let layer = masaInformativaLayers f ! ACTIVE_LAYER;
             xi = fst point * (real (grid_nx f) - 1) / dom_Lx f;
             yi = snd point * (real (grid_ny f) - 1) / dom_Ly f;
             xIdx = nat (max 0 (min \<lfloor>xi\<rfloor> (int (grid_nx f) - 2)));
             yIdx = nat (max 0 (min \<lfloor>yi\<rfloor> (int (grid_ny f) - 2)))
         in if yIdx < length (velocityField layer) \<and> xIdx < length (velocityField layer ! yIdx)
            then Inr (velocityField layer ! yIdx ! xIdx) else Inr (0, 0)))"

text \<open>The loop of \<open>integrateStreamline\<close>, with the number of steps left.\<close>

fun integrate_steps ::
  "QuantumLaminarFlow \<Rightarrow> nat \<Rightarrow> real \<times> real \<Rightarrow> (real \<times> real) list \<Rightarrow> js_error + (real \<times> real) list" where
  "integrate_steps f 0 currentPoint coords = Inr coords"
| "integrate_steps f (Suc n) currentPoint coords =
     (case interpolateVelocity f currentPoint of
        Inl e \<Rightarrow> Inl e
      | Inr velocity \<Rightarrow>
          (let p = (fst currentPoint + fst velocity * 0.025, snd currentPoint + snd velocity * 0.025)
           in if fst p < 0.1 \<or> fst p > dom_Lx f - 0.1 \<or> snd p < 0.1 \<or> snd p > dom_Ly f - 0.1
              then Inr coords
              else if sqrt ((fst velocity)\<^sup>2 + (snd velocity)\<^sup>2) < 0.001 then Inr coords
              else integrate_steps f n p (coords @ [p])))"

definition integrateStreamline ::
  "QuantumLaminarFlow \<Rightarrow> real \<times> real \<Rightarrow> js_error + (real \<times> real) list" where
  "integrateStreamline f startPoint = integrate_steps f 500 startPoint [startPoint]"

text \<open>The start point of streamline \<open>i\<close>; \<open>rnd i 0\<close> and \<open>rnd i 1\<close> are the two values
  \<open>Math.random()\<close> returns for it.\<close>

definition start_point :: "QuantumLaminarFlow \<Rightarrow> (nat \<Rightarrow> nat \<Rightarrow> real) \<Rightarrow> nat \<Rightarrow> real \<times> real" where
  "start_point f rnd i =
     (let numStreamlines = (if dualCircuitMode f then 20 else 15 :: nat)
      in if dualCircuitMode f then
           (if real i < real numStreamlines / 2 then
              (let qubitIdx = i mod 5
               in (dom_Lx f * (0.15 + 0.12 * real qubitIdx) + (rnd i 0 - 0.5) * 1.5,
                   dom_Ly f * 0.25 + (rnd i 1 - 0.5) * 2))
            else
              (let qubitIdx = (i - numStreamlines div 2) mod 5
               in (dom_Lx f * (0.15 + 0.12 * real qubitIdx) + (rnd i 0 - 0.5) * 1.5,
                   dom_Ly f * 0.75 + (rnd i 1 - 0.5) * 2)))
         else
           (let qubitIdx = i mod 5
            in (dom_Lx f * (0.15 + 0.12 * real qubitIdx) + (rnd i 0 - 0.5) * 1.5,
                dom_Ly f * 0.5 + (rnd i 1 - 0.5) * 3)))"

text \<open>The body of the loop of \<open>defineQuantumStreamlines\<close> for streamline \<open>i\<close>.\<close>

definition add_streamline ::
  "QuantumLaminarFlow \<Rightarrow> (nat \<Rightarrow> nat \<Rightarrow> real) \<Rightarrow> QuantumStreamline list \<Rightarrow> nat \<Rightarrow>
     js_error + QuantumStreamline list" where
  "add_streamline f rnd acc i =
     (case integrateStreamline f (start_point f rnd i) of
        Inl e \<Rightarrow> Inl e
      | Inr coords \<Rightarrow>
          if length coords > 1 then
            Inr (acc @ [\<lparr>coordinates = coords,
                   probabilityDensity = computeQuantumProbabilityDensity f coords i,
                   streamline_phase = computeQuantumPhase f coords i,
                   coherenceLength = computeCoherenceLength f coords\<rparr>])
          else Inr acc)"

fun streamlines_loop ::
  "QuantumLaminarFlow \<Rightarrow> (nat \<Rightarrow> nat \<Rightarrow> real) \<Rightarrow> QuantumStreamline list \<Rightarrow> nat list \<Rightarrow>
     js_error + QuantumStreamline list" where
  "streamlines_loop f rnd acc [] = Inr acc"
| "streamlines_loop f rnd acc (i # is) =
     (case add_streamline f rnd acc i of
        Inl e \<Rightarrow> Inl e
      | Inr acc' \<Rightarrow> streamlines_loop f rnd acc' is)"

definition defineQuantumStreamlines ::
  "QuantumLaminarFlow \<Rightarrow> (nat \<Rightarrow> nat \<Rightarrow> real) \<Rightarrow> js_error + QuantumStreamline list" where
  "defineQuantumStreamlines f rnd =
     streamlines_loop f rnd [] [0..<(if dualCircuitMode f then 20 else 15)]"


text \<open>The contribution of qubit \<open>qubitIdx\<close> of a circuit to the density of layer
  \<open>layerIdx\<close> at \<open>(x, y)\<close>: the body of the loops over \<open>qubitIdx\<close>, which
  \<open>initializeInfoLayersWithQuantum\<close> and \<open>updateMasaInformativaFromQuantum\<close> both have.\<close>

definition qubit_blob ::
  "QuantumLaminarFlow \<Rightarrow> QuantumCircuit \<Rightarrow> nat \<Rightarrow> real \<Rightarrow> real \<Rightarrow> real \<Rightarrow> nat \<Rightarrow> real" where
  "qubit_blob f c layerIdx centerY px py qubitIdx =
     (let centerX = dom_Lx f * (0.15 + 0.12 * real qubitIdx);
          sigma = 0.8 + real layerIdx * 0.2;
          qubitProb = (if qubitIdx < length (qubits c)
                       then getProbability1 (qubits c ! qubitIdx) else 0.5);
          gaussian = exp (- ((px - centerX)\<^sup>2 + (py - centerY)\<^sup>2) / (2 * sigma\<^sup>2))
      in gaussian * qubitProb *
         (1 + 0.3 * sin (if qubitIdx < length (qubits c) then phase (qubits c ! qubitIdx) else 0)))"

text \<open>The sum of these contributions over the five qubits of circuit A and, in dual
  mode, of circuit B.\<close>

definition quantum_masa :: "QuantumLaminarFlow \<Rightarrow> nat \<Rightarrow> real \<Rightarrow> real \<Rightarrow> real" where
  "quantum_masa f layerIdx px py =
     (let m1 = foldl (\<lambda>m qubitIdx. m + qubit_blob f (quantumCircuitA f) layerIdx
                   (if dualCircuitMode f then dom_Ly f * 0.25 else dom_Ly f * 0.5) px py qubitIdx)
                 0 [0..<5]
      in case quantumCircuitB f of
           Some b \<Rightarrow>
             if dualCircuitMode f
             then foldl (\<lambda>m qubitIdx. m + qubit_blob f b layerIdx (dom_Ly f * 0.75) px py qubitIdx * 0.8)
                    m1 [0..<5]
             else m1
         | None \<Rightarrow> m1)"

text \<open>
  \<open>updateMasaInformativaFromQuantum\<close>. With an empty grid the loops do nothing. Otherwise
  the active layer must exist (\<open>layer.density\<close> of \<open>undefined\<close> is a TypeError), and so
  must every row \<open>density[i]\<close> for \<open>i < ny\<close>. A cell \<open>density[i][j]\<close> or a coordinate
  \<open>x[j]\<close>, \<open>y[i]\<close> that does not exist reads as \<open>undefined\<close> and turns the arithmetic into
  NaN: outside \<open>grid_ok\<close> the model stops with \<open>NotANumber\<close>.
\<close>

definition grid_ok :: "QuantumLaminarFlow \<Rightarrow> bool" where
  "grid_ok f \<longleftrightarrow>
     ACTIVE_LAYER < length (masaInformativaLayers f)
     \<and> grid_nx f \<le> length (grid_x f) \<and> grid_ny f \<le> length (grid_y f)
     \<and> grid_ny f \<le> length (density (masaInformativaLayers f ! ACTIVE_LAYER))
     \<and> list_all (\<lambda>row. grid_nx f \<le> length row)
          (take (grid_ny f) (density (masaInformativaLayers f ! ACTIVE_LAYER)))"

definition update_row :: "QuantumLaminarFlow \<Rightarrow> nat \<Rightarrow> real list \<Rightarrow> real list" where
  "update_row f i row =
     map (\<lambda>(j, old). if j < grid_nx f
            then 0.92 * old + 0.08 * max 0.01 (quantum_masa f ACTIVE_LAYER (grid_x f ! j) (grid_y f ! i))
            else old) (enumerate 0 row)"

definition updateMasaInformativaFromQuantum ::
  "QuantumLaminarFlow \<Rightarrow> js_error + QuantumLaminarFlow" where
  "updateMasaInformativaFromQuantum f =
     (if grid_nx f = 0 \<or> grid_ny f = 0 then Inr f
      else if \<not> ACTIVE_LAYER < length (masaInformativaLayers f) then Inl TypeError
      else if \<not> grid_ny f \<le> length (density (masaInformativaLayers f ! ACTIVE_LAYER))
        then Inl TypeError
      else if \<not> grid_ok f then Inl NotANumber
      else
        (let layer = masaInformativaLayers f ! ACTIVE_LAYER;
             density' = map (\<lambda>(i, row). if i < grid_ny f then update_row f i row else row)
                          (enumerate 0 (density layer))
         in Inr (f\<lparr>masaInformativaLayers :=
                     (masaInformativaLayers f)[ACTIVE_LAYER := layer\<lparr>density := density'\<rparr>]\<rparr>)))"

text \<open>The perturbation of one streamline in \<open>evolve\<close>; \<open>t\<close> is the time after the
  increment, \<open>rnd idx 0\<close> and \<open>rnd idx 1\<close> the two random draws for point \<open>idx\<close>.\<close>

definition perturb_streamline ::
  "QuantumLaminarFlow \<Rightarrow> real \<Rightarrow> (nat \<Rightarrow> nat \<Rightarrow> real) \<Rightarrow> QuantumStreamline \<Rightarrow> QuantumStreamline" where
  "perturb_streamline f t rnd s =
     (let oscillation = 1 + 0.1 * sin (t * 0.25)
      in s\<lparr>coherenceLength := coherenceLength s * (0.9998 * oscillation),
           coordinates := map (\<lambda>(idx, coord).
             if idx > 0 \<and> idx < length (coordinates s) - 1 then
               (let phaseEvolution = (if idx < length (streamline_phase s)
                                      then streamline_phase s ! idx else 0);
                    perturbation = 0.002 * sin (phaseEvolution + t);
                    c0 = fst coord + perturbation * (rnd idx 0 - 0.5);
                    c1 = snd coord + perturbation * (rnd idx 1 - 0.5)
                in (max 0.1 (min (dom_Lx f - 0.1) c0), max 0.1 (min (dom_Ly f - 0.1) c1)))
             else coord) (enumerate 0 (coordinates s))\<rparr>)"

definition flow_evolve ::
  "real \<Rightarrow> (nat \<Rightarrow> nat \<Rightarrow> nat \<Rightarrow> real) \<Rightarrow> QuantumLaminarFlow \<Rightarrow> js_error + QuantumLaminarFlow" where
  "flow_evolve dt rnd f =
     (let f1 = f\<lparr>flow_time := flow_time f + dt\<rparr>;
          f2 = f1\<lparr>quantumCircuitA := circuit_evolve dt (quantumCircuitA f1)\<rparr>
      in case updateMasaInformativaFromQuantum f2 of
           Inl e \<Rightarrow> Inl e
         | Inr f3 \<Rightarrow>
             (let f4 = (case quantumCircuitB f3 of
                          Some b \<Rightarrow> if dualCircuitMode f3
                                    then f3\<lparr>quantumCircuitB := Some (circuit_evolve dt b)\<rparr> else f3
                        | None \<Rightarrow> f3)
              in Inr (f4\<lparr>streamlines := map (\<lambda>(k, s). perturb_streamline f4 (flow_time f4) (rnd k) s)
                                            (enumerate 0 (streamlines f4))\<rparr>)))"

text \<open>A run of \<open>evolve\<close> calls, one per animation frame.\<close>

fun evolve_all ::
  "(real \<times> (nat \<Rightarrow> nat \<Rightarrow> nat \<Rightarrow> real)) list \<Rightarrow> QuantumLaminarFlow \<Rightarrow> js_error + QuantumLaminarFlow" where
  "evolve_all [] f = Inr f"
| "evolve_all ((dt, rnd) # steps) f =
     (case flow_evolve dt rnd f of Inl e \<Rightarrow> Inl e | Inr f' \<Rightarrow> evolve_all steps f')"

text \<open>The velocity at \<open>(x, y)\<close>: the entangled qubits of both circuits, and the vortex
  around the centre of the domain.\<close>

definition cell_velocity :: "QuantumLaminarFlow \<Rightarrow> real \<Rightarrow> real \<Rightarrow> real \<times> real" where
  "cell_velocity f px py =
     (let v1 = foldl (\<lambda>(vx, vy) q.
                  if entangled q then
                    (let entanglementStrength = real (length (entangledWith q))
                     in (vx + entanglementStrength * sin (phase q + px * 0.3) * getProbability1 q,
                         vy + entanglementStrength * cos (phase q + py * 0.3) * getProbability0 q))
                  else (vx, vy)) (0, 0) (qubits (quantumCircuitA f));
          v2 = (case quantumCircuitB f of
                  Some b \<Rightarrow>
                    if dualCircuitMode f then
                      foldl (\<lambda>(vx, vy) q.
                        if entangled q then
                          (let entanglementStrength = real (length (entangledWith q))
                           in (vx + entanglementStrength * cos (phase q + px * 0.4) * getProbability1 q * 0.7,
                               vy + entanglementStrength * sin (phase q + py * 0.4) * getProbability0 q * - 0.7))
                        else (vx, vy)) v1 (qubits b)
                    else v1
                | None \<Rightarrow> v1);
          dx = px - dom_Lx f / 2;
          dy = py - dom_Ly f / 2;
          r = sqrt (dx * dx + dy * dy) + 0.1
      in (fst v2 + - dy / r * exp (- r / 4) * 0.4, snd v2 + dx / r * exp (- r / 4) * 0.4))"

text \<open>An entry of the entanglement matrix, before the decay with the depth.\<close>

definition matrix_entry :: "QuantumLaminarFlow \<Rightarrow> nat \<Rightarrow> nat \<Rightarrow> real" where
  "matrix_entry f i j =
     (let a = quantumCircuitA f;
          e1 = (if i < 5 \<and> j < 5 \<and> i < length (qubits a) \<and> j < length (qubits a)
                   \<and> Local j \<in> set (entangledWith (qubits a ! i))
                then sqrt (getProbability1 (qubits a ! i) * getProbability1 (qubits a ! j)) * 2
                else 0);
          e2 = (case quantumCircuitB f of
                  Some b \<Rightarrow>
                    if i \<ge> 5 \<and> j \<ge> 5 \<and> dualCircuitMode f
                       \<and> i - 5 < length (qubits b) \<and> j - 5 < length (qubits b)
                       \<and> Local (j - 5) \<in> set (entangledWith (qubits b ! (i - 5)))
                    then sqrt (getProbability1 (qubits b ! (i - 5)) * getProbability1 (qubits b ! (j - 5))) * 2
                    else e1
                | None \<Rightarrow> e1)
      in case quantumCircuitB f of
           Some b \<Rightarrow>
             if ((i < 5 \<and> j \<ge> 5) \<or> (i \<ge> 5 \<and> j < 5))
                \<and> list_ex (\<lambda>(p, q). (int i = int p \<and> int j - 5 = int q)
                                    \<or> (int i - 5 = int q \<and> int j = int p))
                     (interCircuitConnections a)
             then 1.5 else e2
         | None \<Rightarrow> e2)"

definition generateQuantumEntanglementMatrix :: "QuantumLaminarFlow \<Rightarrow> real \<Rightarrow> real list list" where
  "generateQuantumEntanglementMatrix f d =
     (let size = (if dualCircuitMode f then 10 else 5 :: nat)
      in map (\<lambda>i. map (\<lambda>j. matrix_entry f i j * exp (- d / 12.0)) [0..<size]) [0..<size])"

text \<open>\<open>initializeInfoLayersWithQuantum\<close>; \<open>noise layerIdx i j\<close> is the value of
  \<open>Math.random()\<close> for the cell \<open>(i, j)\<close> of the layer.\<close>

definition initializeInfoLayersWithQuantum ::
  "QuantumLaminarFlow \<Rightarrow> (nat \<Rightarrow> nat \<Rightarrow> nat \<Rightarrow> real) \<Rightarrow> MasaInformativaLayer list" where
  "initializeInfoLayersWithQuantum f noise =
     map (\<lambda>layerIdx.
        (let d = real layerIdx * 2.0
         in \<lparr>depth = d,
              density = map (\<lambda>i. map (\<lambda>j.
                  max 0.01 (quantum_masa f layerIdx (grid_x f ! j) (grid_y f ! i)
                            + 0.03 * (noise layerIdx i j - 0.5)))
                [0..<grid_nx f]) [0..<grid_ny f],
              velocityField = map (\<lambda>i. map (\<lambda>j. cell_velocity f (grid_x f ! j) (grid_y f ! i))
                [0..<grid_nx f]) [0..<grid_ny f],
              entanglementMatrix = generateQuantumEntanglementMatrix f d\<rparr>))
       [0..<numLayers f]"

definition computeInformationalReynolds :: "QuantumLaminarFlow \<Rightarrow> real" where
  "computeInformationalReynolds f =
     (let characteristicVelocity = 1.0;
          characteristicLength = min (dom_Lx f) (dom_Ly f);
          avgProbA = foldl (\<lambda>sum q. sum + getProbability1 q) 0 (qubits (quantumCircuitA f)) / 5;
          quantumFactor1 = 1.0 + avgProbA;
          quantumFactor =
            (case quantumCircuitB f of
               Some b \<Rightarrow>
                 if dualCircuitMode f
                 then quantumFactor1 + foldl (\<lambda>sum q. sum + getProbability1 q) 0 (qubits b) / 5 * 0.8
                 else quantumFactor1
             | None \<Rightarrow> quantumFactor1)
      in (characteristicVelocity * characteristicLength * quantumFactor) / viscosityParam f)"

text \<open>The constructor. \<open>noise\<close> and \<open>rnd\<close> are the random draws of the layers and of the
  start points of the streamlines.\<close>

definition new_QuantumLaminarFlow ::
  "nat \<Rightarrow> real \<times> real \<Rightarrow> QuantumCircuit \<Rightarrow> QuantumCircuit option \<Rightarrow>
     (nat \<Rightarrow> nat \<Rightarrow> nat \<Rightarrow> real) \<Rightarrow> (nat \<Rightarrow> nat \<Rightarrow> real) \<Rightarrow> js_error + QuantumLaminarFlow" where
  "new_QuantumLaminarFlow gridSize domainSize circuitA circuitB noise rnd =
     (let f0 = \<lparr>grid_nx = gridSize, grid_ny = gridSize,
                 dom_Lx = fst domainSize, dom_Ly = snd domainSize,
                 numLayers = NUM_LAYERS, viscosityParam = VISCOSITY,
                 quantumCircuitA = circuitA, quantumCircuitB = circuitB,
                 dualCircuitMode = (circuitB \<noteq> None),
                 grid_x = map (\<lambda>i. real i * fst domainSize / (real gridSize - 1)) [0..<gridSize],
                 grid_y = map (\<lambda>i. real i * snd domainSize / (real gridSize - 1)) [0..<gridSize],
                 flow_time = 0, masaInformativaLayers = [], streamlines = [],
                 informationalReynolds = 0\<rparr>;
          f1 = f0\<lparr>masaInformativaLayers := initializeInfoLayersWithQuantum f0 noise\<rparr>
      in case defineQuantumStreamlines f1 rnd of
           Inl e \<Rightarrow> Inl e
         | Inr ss \<Rightarrow>
             (let f2 = f1\<lparr>streamlines := ss\<rparr>
              in Inr (f2\<lparr>informationalReynolds := computeInformationalReynolds f2\<rparr>)))"

text \<open>What is true of every streamline the constructor makes.\<close>

definition normalised :: "QuantumStreamline \<Rightarrow> bool" where
  "normalised s \<longleftrightarrow> coordinates s \<noteq> [] \<and> length (probabilityDensity s) = length (coordinates s)
     \<and> sum_list (probabilityDensity s) = 1"

section \<open>The wormhole service\<close>

text \<open>The constants of \<open>constants.ts\<close>.\<close>

definition HBAR :: real where "HBAR = 1.0545718 / 10 ^ 34"
definition C_light :: real where "C_light = 299792458"
definition EINSTEIN_CONSTANT :: real where "EINSTEIN_CONSTANT = 2.076 / 10 ^ 43"

record WormholeConfig =
  majorana_mass :: real
  dark_energy :: real
  wormhole_distance :: real
  teleport_time :: real
  num_points :: nat
  dimension :: nat

definition WORMHOLE_CONFIG :: WormholeConfig where
  "WORMHOLE_CONFIG = \<lparr>majorana_mass = 2.5 / 10 ^ 25, dark_energy = - 1.2 / 10 ^ 10,
     wormhole_distance = 1.6 / 10 ^ 35, teleport_time = 5.4 / 10 ^ 44,
     num_points = 1000, dimension = 4\<rparr>"

record GeometryPoint =
  gp_z :: real
  radius :: real
  curvature :: real
  energy_density :: real

record SpacetimePoint = GeometryPoint +
  einstein_tensor :: real
  ricci_scalar :: real
  stress_energy :: real

record MajoranaFieldPoint =
  mf_position :: real
  mf_amplitude :: real
  mf_phase :: real
  spinor :: "real list"
  mass_term :: real

record QuantumWormhole =
  config :: WormholeConfig
  throat_geometry :: "GeometryPoint list"
  spacetime_curvature :: "SpacetimePoint list"
  majorana_field :: "MajoranaFieldPoint list"

definition calculateThroatGeometry :: "WormholeConfig \<Rightarrow> GeometryPoint list" where
  "calculateThroatGeometry cfg =
     (let throat_radius = wormhole_distance cfg
      in map (\<lambda>i.
           (let z = (real i / real (num_points cfg) - 0.5) * 10 * throat_radius;
                rho_z = throat_radius * sqrt (1 + (z / throat_radius)\<^sup>2)
            in \<lparr>gp_z = z, radius = rho_z,
                 curvature = 1 / (throat_radius * (1 + (z / throat_radius)\<^sup>2) powr (3 / 2)),
                 energy_density = dark_energy cfg * exp (- \<bar>z\<bar> / throat_radius)\<rparr>))
         [0..<num_points cfg])"

definition calculateSpacetimeCurvature :: "GeometryPoint list \<Rightarrow> SpacetimePoint list" where
  "calculateSpacetimeCurvature geometry =
     map (\<lambda>point. \<lparr>gp_z = gp_z point, radius = radius point, curvature = curvature point,
            energy_density = energy_density point,
            einstein_tensor = EINSTEIN_CONSTANT * energy_density point,
            ricci_scalar = 2 * curvature point,
            stress_energy = energy_density point / C_light\<^sup>2\<rparr>) geometry"

definition initializeMajoranaField :: "WormholeConfig \<Rightarrow> GeometryPoint list \<Rightarrow> MajoranaFieldPoint list" where
  "initializeMajoranaField cfg geometry =
     map (\<lambda>(i, point).
        (let ph = 2 * pi * real i / real (num_points cfg);
             amp = exp (- \<bar>gp_z point\<bar> / wormhole_distance cfg)
         in \<lparr>mf_position = gp_z point, mf_amplitude = amp, mf_phase = ph,
              spinor = [amp * cos (ph / 2), amp * sin (ph / 2), - amp * sin (ph / 2), amp * cos (ph / 2)],
              mass_term = majorana_mass cfg * amp\<rparr>)) (enumerate 0 geometry)"

definition new_QuantumWormhole :: "WormholeConfig \<Rightarrow> QuantumWormhole" where
  "new_QuantumWormhole cfg =
     (let geometry = calculateThroatGeometry cfg
      in \<lparr>config = cfg, throat_geometry = geometry,
           spacetime_curvature = calculateSpacetimeCurvature geometry,
           majorana_field = initializeMajoranaField cfg geometry\<rparr>)"

definition calculateQuantumTunnelingProbability :: "QuantumWormhole \<Rightarrow> real \<Rightarrow> real" where
  "calculateQuantumTunnelingProbability w energy_amplitude =
     (let barrier_height = \<bar>dark_energy (config w)\<bar>;
          particle_energy = energy_amplitude * HBAR * C_light
      in if particle_energy > barrier_height then 0.98
         else
           (let kappa = sqrt (2 * (barrier_height - particle_energy)) / HBAR;
                barrier_width = 2 * wormhole_distance (config w)
            in exp (- 2 * kappa * barrier_width)))"

text \<open>The interfaces \<open>Qubit\<close> and \<open>Circuit\<close> of the service (not the classes of the component).\<close>

record WQubit =
  wq_id :: nat
  amplitude :: real
  wq_phase :: real
  coherence :: real
  wormhole_coupling :: "real option"
  spacetime_correction :: "real option"

record Circuit =
  circuit_id :: string
  circuit_qubits :: "WQubit list"

record FragmentedState =
  fragment_id :: nat
  wormhole_position :: real
  alpha :: real
  beta :: real
  geometric_phase :: real
  tunneling_probability :: real
  fragment_qubits :: "WQubit list"
  fragment_coords :: "nat \<times> nat \<times> nat"

record FragmentationSystem =
  wormhole :: QuantumWormhole
  fragmented_states :: "FragmentedState list"
  total_energy :: real
  average_tunneling :: real
  geometric_coherence :: real

text \<open>The body of the loop of \<open>createWormholeFragmentationSystem\<close>: fragment \<open>i\<close>.
  The two geometry arrays are read at \<open>i % length\<close>; with a wormhole of no points the
  read is \<open>undefined\<close> and its first use a TypeError.\<close>

definition make_fragment ::
  "QuantumWormhole \<Rightarrow> Circuit \<Rightarrow> Circuit \<Rightarrow> nat \<Rightarrow> js_error + FragmentedState" where
  "make_fragment w circuitA circuitB i =
     (if length (spacetime_curvature w) = 0 \<or> length (majorana_field w) = 0 then Inl TypeError
      else
        (let wormhole_point = spacetime_curvature w ! (i mod length (spacetime_curvature w));
             mf = majorana_field w ! (i mod length (majorana_field w));
             geometric_factor = radius wormhole_point / wormhole_distance WORMHOLE_CONFIG;
             a = cos (pi * real i / 2048) * sqrt geometric_factor;
             b = sin (pi * real i / 2048) * sqrt geometric_factor
         in Inr \<lparr>fragment_id = i, wormhole_position = gp_z wormhole_point,
              alpha = a, beta = b, geometric_phase = mf_phase mf,
              tunneling_probability = calculateQuantumTunnelingProbability w (sqrt (a * a + b * b)),
              fragment_qubits =
                map (\<lambda>qubit. qubit\<lparr>amplitude := amplitude qubit * a * mf_amplitude mf,
                       wq_phase := wq_phase qubit + mf_phase mf + curvature wormhole_point,
                       wormhole_coupling := Some (energy_density wormhole_point),
                       spacetime_correction := Some (einstein_tensor wormhole_point)\<rparr>)
                  (circuit_qubits circuitA) @
                map (\<lambda>qubit. qubit\<lparr>wq_id := wq_id qubit + 5,
                       amplitude := amplitude qubit * b * mf_amplitude mf,
                       wq_phase := wq_phase qubit - mf_phase mf - curvature wormhole_point,
                       wormhole_coupling := Some (- energy_density wormhole_point),
                       spacetime_correction := Some (- einstein_tensor wormhole_point)\<rparr>)
                  (circuit_qubits circuitB),
              fragment_coords = (i mod 32, i div 32, i div 256)\<rparr>))"

text \<open>A loop whose body can throw.\<close>

fun foldE :: "('a \<Rightarrow> 'b \<Rightarrow> js_error + 'a) \<Rightarrow> 'a \<Rightarrow> 'b list \<Rightarrow> js_error + 'a" where
  "foldE g acc [] = Inr acc"
| "foldE g acc (x # xs) = (case g acc x of Inl e \<Rightarrow> Inl e | Inr acc' \<Rightarrow> foldE g acc' xs)"

definition createWormholeFragmentationSystem ::
  "Circuit \<Rightarrow> Circuit \<Rightarrow> js_error + FragmentationSystem" where
  "createWormholeFragmentationSystem circuitA circuitB =
     (let w = new_QuantumWormhole WORMHOLE_CONFIG
      in case foldE (\<lambda>acc i. case make_fragment w circuitA circuitB i of
                       Inl e \<Rightarrow> Inl e | Inr st \<Rightarrow> Inr (acc @ [st])) [] [0..<1024] of
           Inl e \<Rightarrow> Inl e
         | Inr fragmentedStates \<Rightarrow>
             Inr \<lparr>wormhole = w, fragmented_states = fragmentedStates,
                  total_energy = foldl (\<lambda>sum st. sum +
                      foldl (\<lambda>qsum q. qsum + amplitude q * amplitude q) 0 (fragment_qubits st))
                    0 fragmentedStates,
                  average_tunneling =
                    foldl (\<lambda>sum st. sum + tunneling_probability st) 0 fragmentedStates / 1024,
                  geometric_coherence =
                    real (length (filter (\<lambda>st. tunneling_probability st > 0.5) fragmentedStates))
                      / 1024\<rparr>)"

record ReconstructedQubit =
  rq_amplitude :: real
  rq_phase :: real
  rq_coherence :: real
  geometric_weight :: real
  wormhole_contributions :: "real list"
  contributing_fragment_ids :: "nat list"

record ReconstructedCircuit =
  rc_qubits :: "ReconstructedQubit list"
  wormhole_fidelity :: real

record GeometricCorrection =
  gc_position :: real
  gc_curvature :: real
  gc_energy :: real

record ReconstructionResult =
  circuit_A :: ReconstructedCircuit
  circuit_B :: ReconstructedCircuit
  wormhole_efficiency :: real
  rr_average_tunneling :: real
  geometric_corrections :: "GeometricCorrection list"

definition empty_reconstruction :: ReconstructedQubit where
  "empty_reconstruction = \<lparr>rq_amplitude = 0, rq_phase = 0, rq_coherence = 0, geometric_weight = 0,
     wormhole_contributions = [], contributing_fragment_ids = []\<rparr>"

text \<open>One side of the body of the \<open>forEach\<close> over the fragments: \<open>coef\<close> is \<open>state.alpha\<close> or
  \<open>state.beta\<close>, \<open>k\<close> the index of the qubit in \<open>state.qubits\<close>. Reading the amplitude of
  a qubit that is not there is a TypeError.\<close>

definition accumulate ::
  "FragmentedState \<Rightarrow> real \<Rightarrow> nat \<Rightarrow> ReconstructedQubit \<Rightarrow> js_error + ReconstructedQubit" where
  "accumulate st coef k r =
     (let gw = tunneling_probability st
      in if coef > 0.3 then
           (if k < length (fragment_qubits st) then
              (let q = fragment_qubits st ! k
               in Inr (r\<lparr>rq_amplitude := rq_amplitude r + amplitude q * coef * gw,
                        rq_phase := rq_phase r + wq_phase q * coef * gw,
                        geometric_weight := geometric_weight r + coef * gw,
                        wormhole_contributions := wormhole_contributions r @ [wormhole_position st],
                        contributing_fragment_ids := contributing_fragment_ids r @ [fragment_id st]\<rparr>))
            else Inl TypeError)
         else Inr r)"

definition fold_fragment ::
  "nat \<Rightarrow> ReconstructedQubit \<times> ReconstructedQubit \<Rightarrow> FragmentedState \<Rightarrow>
     js_error + (ReconstructedQubit \<times> ReconstructedQubit)" where
  "fold_fragment qubit_idx acc st =
     (case accumulate st (alpha st) qubit_idx (fst acc) of
        Inl e \<Rightarrow> Inl e
      | Inr ra \<Rightarrow>
          (case accumulate st (beta st) (qubit_idx + 5) (snd acc) of
             Inl e \<Rightarrow> Inl e
           | Inr rb \<Rightarrow> Inr (ra, rb)))"

definition finish_reconstruction :: "ReconstructedQubit \<Rightarrow> ReconstructedQubit" where
  "finish_reconstruction r =
     (if geometric_weight r > 0 then
        r\<lparr>rq_amplitude := rq_amplitude r / geometric_weight r,
          rq_phase := rq_phase r / geometric_weight r,
          rq_coherence := tanh (geometric_weight r / 100)\<rparr>
      else r)"

definition calculateExplorationFactor :: "ReconstructedQubit list \<Rightarrow> real" where
  "calculateExplorationFactor qs =
     (let all_fragment_ids = concat (map contributing_fragment_ids qs)
      in if length all_fragment_ids < 20 then 0
         else
           (let norm_positions =
                  map (\<lambda>i. (real i / real (num_points WORMHOLE_CONFIG) - 0.5) * 10) all_fragment_ids;
                mean = foldl (\<lambda>a b. a + b) 0 norm_positions / real (length norm_positions);
                variance = foldl (\<lambda>sum v. sum + (v - mean) ^ 2) 0 norm_positions
                             / real (length norm_positions)
            in min 1.0 (variance / 8.0)))"

definition reconstructWithWormholeGeometry ::
  "FragmentationSystem \<Rightarrow> js_error + ReconstructionResult" where
  "reconstructWithWormholeGeometry fragmentationSystem =
     (case foldE (\<lambda>(qsA, qsB) qubit_idx.
               case foldE (fold_fragment qubit_idx) (empty_reconstruction, empty_reconstruction)
                      (fragmented_states fragmentationSystem) of
                 Inl e \<Rightarrow> Inl e
               | Inr (ra, rb) \<Rightarrow>
                   Inr (qsA @ [finish_reconstruction ra], qsB @ [finish_reconstruction rb]))
             ([], []) [0..<5] of
        Inl e \<Rightarrow> Inl e
      | Inr (qsA, qsB) \<Rightarrow>
          (let fidelity_A = foldl (\<lambda>sum q. sum + rq_coherence q) 0 qsA / 5;
               fidelity_B = foldl (\<lambda>sum q. sum + rq_coherence q) 0 qsB / 5;
               exploration_A = calculateExplorationFactor qsA;
               exploration_B = calculateExplorationFactor qsB;
               average_exploration = (exploration_A + exploration_B) / 2;
               average_fidelity = (fidelity_A + fidelity_B) / 2
           in Inr \<lparr>circuit_A = \<lparr>rc_qubits = qsA, wormhole_fidelity = fidelity_A\<rparr>,
                    circuit_B = \<lparr>rc_qubits = qsB, wormhole_fidelity = fidelity_B\<rparr>,
                    wormhole_efficiency = 0.7 * average_fidelity + 0.3 * average_exploration,
                    rr_average_tunneling = average_tunneling fragmentationSystem,
                    geometric_corrections =
                      map (\<lambda>point. \<lparr>gc_position = gp_z point, gc_curvature = ricci_scalar point,
                             gc_energy = stress_energy point\<rparr>)
                        (take 10 (spacetime_curvature (wormhole fragmentationSystem)))\<rparr>))"

text \<open>\<open>convertToCircuitType\<close> of \<open>handleReconstruction\<close>: the circuit of the component as
  the service takes it.\<close>

definition convertToCircuitType :: "QuantumCircuit \<Rightarrow> Circuit" where
  "convertToCircuitType qc =
     \<lparr>circuit_id = circuitId qc,
      circuit_qubits = map (\<lambda>(idx, q). \<lparr>wq_id = idx, amplitude = \<bar>snd (state q)\<bar>,
          wq_phase = phase q, coherence = 1.0, wormhole_coupling = None,
          spacetime_correction = None\<rparr>) (enumerate 0 (qubits qc))\<rparr>"

text \<open>The bounds of a reconstructed qubit's coherence.\<close>

definition coherent :: "ReconstructedQubit \<Rightarrow> bool" where
  "coherent q \<longleftrightarrow> 0 \<le> rq_coherence q \<and> rq_coherence q < 1"

section \<open>The seed: base64 of JSON\<close>

text \<open>
  \<open>btoa\<close> and \<open>atob\<close> are the browser's functions: base64 with padding (RFC 4648), and
  the forgiving base64 decoding of the HTML standard. A string is a list of bytes, so
  every character is in the range that \<open>btoa\<close> accepts.
\<close>

definition b64_alphabet :: string where
  "b64_alphabet = ''ABCDEFGHIJKLMNOPQRSTUVWXYZabcdefghijklmnopqrstuvwxyz0123456789+/''"

definition b64_char :: "nat \<Rightarrow> char" where
  "b64_char n = b64_alphabet ! n"

fun index_of :: "'a \<Rightarrow> 'a list \<Rightarrow> nat option" where
  "index_of c [] = None"
| "index_of c (x # xs) = (if c = x then Some 0 else map_option Suc (index_of c xs))"

definition b64_val :: "char \<Rightarrow> nat option" where
  "b64_val c = index_of c b64_alphabet"

fun b64_encode :: "nat list \<Rightarrow> string" where
  "b64_encode (a # b # c # rest) =
     [b64_char (a div 4), b64_char ((a mod 4) * 16 + b div 16),
      b64_char ((b mod 16) * 4 + c div 64), b64_char (c mod 64)] @ b64_encode rest"
| "b64_encode [a, b] =
     [b64_char (a div 4), b64_char ((a mod 4) * 16 + b div 16), b64_char ((b mod 16) * 4), CHR ''='']"
| "b64_encode [a] = [b64_char (a div 4), b64_char ((a mod 4) * 16), CHR ''='', CHR ''='']"
| "b64_encode [] = []"

text \<open>The same encoding in two parts: the 6-bit values, and the padding.\<close>

fun b64_sextets :: "nat list \<Rightarrow> nat list" where
  "b64_sextets (a # b # c # rest) =
     [a div 4, (a mod 4) * 16 + b div 16, (b mod 16) * 4 + c div 64, c mod 64] @ b64_sextets rest"
| "b64_sextets [a, b] = [a div 4, (a mod 4) * 16 + b div 16, (b mod 16) * 4]"
| "b64_sextets [a] = [a div 4, (a mod 4) * 16]"
| "b64_sextets [] = []"

fun b64_padding :: "nat list \<Rightarrow> string" where
  "b64_padding (a # b # c # rest) = b64_padding rest"
| "b64_padding [a, b] = ''=''"
| "b64_padding [a] = ''==''"
| "b64_padding [] = []"

definition btoa :: "string \<Rightarrow> js_error + string" where
  "btoa s = Inr (b64_encode (map of_char s))"

text \<open>Decoding the 6-bit values, four at a time; the bits left over at the end are
  discarded.\<close>

fun b64_decode :: "nat list \<Rightarrow> nat list" where
  "b64_decode (p # q # r # s # rest) =
     [p * 4 + q div 16, (q mod 16) * 16 + r div 4, (r mod 4) * 64 + s] @ b64_decode rest"
| "b64_decode [p, q, r] = [p * 4 + q div 16, (q mod 16) * 16 + r div 4]"
| "b64_decode [p, q] = [p * 4 + q div 16]"
| "b64_decode [p] = []"
| "b64_decode [] = []"

definition ascii_whitespace :: "char \<Rightarrow> bool" where
  "ascii_whitespace c \<longleftrightarrow> c = CHR 0x09 \<or> c = CHR 0x0A \<or> c = CHR 0x0C \<or> c = CHR 0x0D \<or> c = CHR '' ''"

definition strip_padding :: "string \<Rightarrow> string" where
  "strip_padding d =
     (if length d mod 4 = 0 then
        (if 2 \<le> length d \<and> last d = CHR ''='' \<and> last (butlast d) = CHR ''=''
         then butlast (butlast d)
         else if d \<noteq> [] \<and> last d = CHR ''='' then butlast d
         else d)
      else d)"

definition atob :: "string \<Rightarrow> js_error + string" where
  "atob input =
     (let d = strip_padding (filter (\<lambda>c. \<not> ascii_whitespace c) input)
      in if length d mod 4 = 1 then Inl InvalidCharacterError
         else if \<not> list_all (\<lambda>c. b64_val c \<noteq> None) d then Inl InvalidCharacterError
         else Inr (map char_of (b64_decode (map (\<lambda>c. the (b64_val c)) d))))"

text \<open>
  \<open>JSON.stringify\<close> and \<open>JSON.parse\<close> are the engine's functions. They are modelled on
  the values a configuration is made of: booleans, arrays, and objects whose keys are in
  insertion order. The engine's parser also accepts \<open>null\<close>, numbers and strings, for
  which this model has no value: on these it stops with \<open>SyntaxError\<close>. Keys are
  written between quotes as they are; the keys of a configuration need no escape.
\<close>

datatype json = JBool bool | JArray "json list" | JObject "(string \<times> json) list"

fun JSON_stringify :: "json \<Rightarrow> string"
  and stringify_elements :: "json list \<Rightarrow> string"
  and stringify_members :: "(string \<times> json) list \<Rightarrow> string" where
  "JSON_stringify (JBool b) = (if b then ''true'' else ''false'')"
| "JSON_stringify (JArray xs) = ''['' @ stringify_elements xs @ '']''"
| "JSON_stringify (JObject kvs) = ''{'' @ stringify_members kvs @ ''}''"
| "stringify_elements [] = []"
| "stringify_elements (x # xs) =
     JSON_stringify x @ (if xs = [] then [] else '','' @ stringify_elements xs)"
| "stringify_members [] = []"
| "stringify_members ((k, v) # kvs) =
     [CHR 0x22] @ k @ [CHR 0x22] @ '':'' @ JSON_stringify v @
     (if kvs = [] then [] else '','' @ stringify_members kvs)"

definition json_ws :: "char \<Rightarrow> bool" where
  "json_ws c \<longleftrightarrow> c = CHR '' '' \<or> c = CHR 0x09 \<or> c = CHR 0x0A \<or> c = CHR 0x0D"

fun skip_ws :: "string \<Rightarrow> string" where
  "skip_ws [] = []"
| "skip_ws (c # cs) = (if json_ws c then skip_ws cs else c # cs)"

text \<open>The characters of a key up to the closing quote. An escape or a control character
  ends the model's parse.\<close>

fun parse_key :: "string \<Rightarrow> (string \<times> string) option" where
  "parse_key [] = None"
| "parse_key (c # cs) =
     (if c = CHR 0x22 then Some ([], cs)
      else if c = CHR 0x5C \<or> (of_char c :: nat) < 32 then None
      else map_option (\<lambda>(k, r). (c # k, r)) (parse_key cs))"

text \<open>The recursive descent; the first argument bounds the number of nested calls.\<close>

fun parse_value :: "nat \<Rightarrow> string \<Rightarrow> (json \<times> string) option"
  and parse_elements :: "nat \<Rightarrow> json list \<Rightarrow> string \<Rightarrow> (json \<times> string) option"
  and parse_members :: "nat \<Rightarrow> (string \<times> json) list \<Rightarrow> string \<Rightarrow> (json \<times> string) option" where
  "parse_value 0 s = None"
| "parse_value (Suc n) s =
     (let t = skip_ws s
      in if take 4 t = ''true'' then Some (JBool True, drop 4 t)
         else if take 5 t = ''false'' then Some (JBool False, drop 5 t)
         else if take 1 t = ''['' then
           (let r = skip_ws (drop 1 t)
            in if take 1 r = '']'' then Some (JArray [], drop 1 r) else parse_elements n [] r)
         else if take 1 t = ''{'' then
           (let r = skip_ws (drop 1 t)
            in if take 1 r = ''}'' then Some (JObject [], drop 1 r) else parse_members n [] r)
         else None)"
| "parse_elements 0 acc s = None"
| "parse_elements (Suc n) acc s =
     (case parse_value n s of
        None \<Rightarrow> None
      | Some (v, r) \<Rightarrow>
          (let t = skip_ws r
           in if take 1 t = '','' then parse_elements n (acc @ [v]) (drop 1 t)
              else if take 1 t = '']'' then Some (JArray (acc @ [v]), drop 1 t)
              else None))"
| "parse_members 0 acc s = None"
| "parse_members (Suc n) acc s =
     (let t = skip_ws s
      in if take 1 t \<noteq> [CHR 0x22] then None
         else
           (case parse_key (drop 1 t) of
              None \<Rightarrow> None
            | Some (k, r) \<Rightarrow>
                (let r1 = skip_ws r
                 in if take 1 r1 \<noteq> '':'' then None
                    else
                      (case parse_value n (drop 1 r1) of
                         None \<Rightarrow> None
                       | Some (v, r2) \<Rightarrow>
                           (let t2 = skip_ws r2
                            in if take 1 t2 = '','' then parse_members n (acc @ [(k, v)]) (drop 1 t2)
                               else if take 1 t2 = ''}'' then Some (JObject (acc @ [(k, v)]), drop 1 t2)
                               else None)))))"

definition JSON_parse :: "string \<Rightarrow> js_error + json" where
  "JSON_parse s =
     (case parse_value (Suc (length s)) s of
        None \<Rightarrow> Inl SyntaxError
      | Some (v, r) \<Rightarrow> if skip_ws r = [] then Inr v else Inl SyntaxError)"

text \<open>The number of nested calls the parse of a printed value makes.\<close>

fun calls :: "json \<Rightarrow> nat"
  and calls_elements :: "json list \<Rightarrow> nat"
  and calls_members :: "(string \<times> json) list \<Rightarrow> nat" where
  "calls (JBool b) = 1"
| "calls (JArray xs) = Suc (calls_elements xs)"
| "calls (JObject kvs) = Suc (calls_members kvs)"
| "calls_elements [] = 0"
| "calls_elements (x # xs) = Suc (calls x + calls_elements xs)"
| "calls_members [] = 0"
| "calls_members ((k, v) # kvs) = Suc (calls v + calls_members kvs)"

text \<open>Keys that are printed as they are: no quote, no backslash, no control character.\<close>

definition plain_key :: "string \<Rightarrow> bool" where
  "plain_key k \<longleftrightarrow> list_all (\<lambda>c. c \<noteq> CHR 0x22 \<and> c \<noteq> CHR 0x5C \<and> \<not> (of_char c :: nat) < 32) k"

fun plain :: "json \<Rightarrow> bool"
  and plain_elements :: "json list \<Rightarrow> bool"
  and plain_members :: "(string \<times> json) list \<Rightarrow> bool" where
  "plain (JBool b) = True"
| "plain (JArray xs) = plain_elements xs"
| "plain (JObject kvs) = plain_members kvs"
| "plain_elements [] = True"
| "plain_elements (x # xs) = (plain x \<and> plain_elements xs)"
| "plain_members [] = True"
| "plain_members ((k, v) # kvs) = (plain_key k \<and> plain v \<and> plain_members kvs)"

text \<open>The configuration of the component, and the object \<open>handleGenerateSeed\<close> builds
  from it.\<close>

record GateConfiguration =
  selectedGatesA :: SelectedGates
  selectedGatesB :: SelectedGates
  circuitBEnabled :: bool
  interCircuitEntanglementEnabled :: bool

definition js_of_gates :: "SelectedGates \<Rightarrow> json" where
  "js_of_gates g = JObject
     [(''hadamard'', JArray (map JBool (g_hadamard g))),
      (''pauliX'', JArray (map JBool (g_pauliX g))),
      (''pauliY'', JArray (map JBool (g_pauliY g))),
      (''pauliZ'', JArray (map JBool (g_pauliZ g))),
      (''rotationX'', JArray (map JBool (g_rotationX g))),
      (''rotationY'', JArray (map JBool (g_rotationY g))),
      (''rotationZ'', JArray (map JBool (g_rotationZ g))),
      (''tGate'', JArray (map JBool (g_tGate g))),
      (''swap'', JArray (map JBool (g_swap g))),
      (''ccnot'', JArray (map JBool (g_ccnot g)))]"

definition js_of_configuration :: "GateConfiguration \<Rightarrow> json" where
  "js_of_configuration cfg = JObject
     [(''selectedGatesA'', js_of_gates (selectedGatesA cfg)),
      (''selectedGatesB'', js_of_gates (selectedGatesB cfg)),
      (''circuitBEnabled'', JBool (circuitBEnabled cfg)),
      (''interCircuitEntanglementEnabled'', JBool (interCircuitEntanglementEnabled cfg))]"

text \<open>\<open>handleGenerateSeed\<close>: the seed, or the error that the \<open>catch\<close> reports.\<close>

definition handleGenerateSeed :: "GateConfiguration \<Rightarrow> js_error + string" where
  "handleGenerateSeed cfg = btoa (JSON_stringify (js_of_configuration cfg))"

text \<open>Reading a property: \<open>undefined\<close> (here \<open>None\<close>) when the value is not an object or has
  no such key; of two members with the same key the later one counts.\<close>

fun get_property :: "json \<Rightarrow> string \<Rightarrow> json option" where
  "get_property (JObject kvs) k = map_of (rev kvs) k"
| "get_property v k = None"

text \<open>\<open>handleLoadSeed\<close>: with an empty input nothing happens (\<open>Inr None\<close>); a seed that
  does not decode is reported (\<open>Inl\<close>); otherwise the four values passed to the setters
  of the configuration, read from the decoded object.\<close>

definition handleLoadSeed ::
  "string \<Rightarrow> js_error + (json option \<times> json option \<times> json option \<times> json option) option" where
  "handleLoadSeed seedInput =
     (if seedInput = [] then Inr None
      else case atob seedInput of
             Inl e \<Rightarrow> Inl e
           | Inr jsonString \<Rightarrow>
               (case JSON_parse jsonString of
                  Inl e \<Rightarrow> Inl e
                | Inr st \<Rightarrow>
                    Inr (Some (get_property st ''selectedGatesA'', get_property st ''selectedGatesB'',
                               get_property st ''circuitBEnabled'',
                               get_property st ''interCircuitEntanglementEnabled''))))"

text \<open>The first character of a printed value.\<close>

definition opener :: "char \<Rightarrow> bool" where
  "opener c \<longleftrightarrow> c = CHR ''t'' \<or> c = CHR ''f'' \<or> c = CHR ''['' \<or> c = CHR ''{''"

text \<open>A configuration with true and false flags for every gate type, in both circuits.\<close>

definition mixed_configuration :: GateConfiguration where
  "mixed_configuration =
     \<lparr>selectedGatesA = \<lparr>g_hadamard = [True, True, True, True, True],
          g_pauliX = [False, True, False, False, False],
          g_pauliY = [False, False, True, False, False],
          g_pauliZ = [False, False, False, True, False],
          g_rotationX = [True, False, False, False, True],
          g_rotationY = [False, True, False, True, False],
          g_rotationZ = [True, False, True, False, True],
          g_tGate = [False, False, False, False, True],
          g_swap = [True, False, False, True],
          g_ccnot = [False, True, False]\<rparr>,
      selectedGatesB = \<lparr>g_hadamard = [True, True, True, True, True],
          g_pauliX = [True, False, False, False, False],
          g_pauliY = [False, False, False, True, False],
          g_pauliZ = [False, True, False, False, False],
          g_rotationX = [False, False, True, False, False],
          g_rotationY = [True, False, False, False, True],
          g_rotationZ = [False, True, False, True, False],
          g_tGate = [True, False, False, False, False],
          g_swap = [False, True, True, False],
          g_ccnot = [True, False, True]\<rparr>,
      circuitBEnabled = True, interCircuitEntanglementEnabled = False\<rparr>"

section \<open>Properties of a single qubit\<close>

text \<open>
  Claim C2. For every state vector and every sample \<open>r\<close> drawn by \<open>Math.random()\<close>,
  \<open>measure\<close> returns 0 and leaves the state \<open>[1, 0]\<close> when \<open>r < |state[0]|\<^sup>2\<close>, and
  otherwise returns 1 and leaves the state \<open>[0, 1]\<close>. So the result is 0 or 1 and the
  state afterwards is the basis vector of the result. No other field changes.
\<close>

theorem measure_collapses:
  "(r < \<bar>fst (state q)\<bar> ^ 2 \<longrightarrow>
      fst (measure_qubit r q) = 0 \<and> state (snd (measure_qubit r q)) = (1, 0))
   \<and> (\<not> r < \<bar>fst (state q)\<bar> ^ 2 \<longrightarrow>
      fst (measure_qubit r q) = 1 \<and> state (snd (measure_qubit r q)) = (0, 1))
   \<and> (fst (measure_qubit r q) = 0 \<or> fst (measure_qubit r q) = 1)
   \<and> state (snd (measure_qubit r q)) = (if fst (measure_qubit r q) = 0 then (1, 0) else (0, 1))
   \<and> snd (measure_qubit r q) = q\<lparr>state := state (snd (measure_qubit r q))\<rparr>"
proof (cases "r < \<bar>fst (state q)\<bar> ^ 2")
  case True
  then have "measure_qubit r q = (0, q\<lparr>state := (1, 0)\<rparr>)"
    by (simp add: measure_qubit_def)
  with True show ?thesis by simp
next
  case False
  then have "measure_qubit r q = (1, q\<lparr>state := (0, 1)\<rparr>)"
    by (simp add: measure_qubit_def)
  with False show ?thesis by simp
qed

theorem measure_collapses_witness:
  "fst (measure_qubit (1/4) (hadamard (new_Qubit ''A0''))) = 0
   \<and> state (snd (measure_qubit (1/4) (hadamard (new_Qubit ''A0'')))) = (1, 0)
   \<and> fst (measure_qubit (3/4) (hadamard (new_Qubit ''A0''))) = 1
   \<and> state (snd (measure_qubit (3/4) (hadamard (new_Qubit ''A0'')))) = (0, 1)"
proof -
  have s: "state (hadamard (new_Qubit ''A0'')) = (1 / sqrt 2, 1 / sqrt 2)"
    by (simp add: hadamard_def new_Qubit_def)
  have p: "\<bar>fst (state (hadamard (new_Qubit ''A0'')))\<bar> ^ 2 = 1 / 2"
    by (simp add: s power2_eq_square)
  have lo: "(1/4 :: real) < \<bar>fst (state (hadamard (new_Qubit ''A0'')))\<bar> ^ 2"
    unfolding p by simp
  have hi: "\<not> (3/4 :: real) < \<bar>fst (state (hadamard (new_Qubit ''A0'')))\<bar> ^ 2"
    unfolding p by simp
  from measure_collapses [of "1/4" "hadamard (new_Qubit ''A0'')"] lo
  have a: "fst (measure_qubit (1/4) (hadamard (new_Qubit ''A0''))) = 0
      \<and> state (snd (measure_qubit (1/4) (hadamard (new_Qubit ''A0'')))) = (1, 0)"
    by blast
  from measure_collapses [of "3/4" "hadamard (new_Qubit ''A0'')"] hi
  have b: "fst (measure_qubit (3/4) (hadamard (new_Qubit ''A0''))) = 1
      \<and> state (snd (measure_qubit (3/4) (hadamard (new_Qubit ''A0'')))) = (0, 1)"
    by blast
  from a b show ?thesis by blast
qed

text \<open>
  Claim C7. Applying \<open>hadamard\<close> twice to a qubit in state \<open>[1, 0]\<close> gives back the
  state \<open>[1, 0]\<close>. In exact arithmetic the equality is exact, hence within every
  tolerance; the two applications are recorded in \<open>appliedGates\<close>.
\<close>

theorem hadamard_twice_basis:
  assumes "state q = (1, 0)"
  shows "state (hadamard (hadamard q)) = (1, 0)
   \<and> \<bar>fst (state (hadamard (hadamard q))) - 1\<bar> \<le> 1 / 10 ^ 9
   \<and> \<bar>snd (state (hadamard (hadamard q))) - 0\<bar> \<le> 1 / 10 ^ 9
   \<and> appliedGates (hadamard (hadamard q)) = appliedGates q @ [''H'', ''H'']"
proof -
  have "(1 / sqrt 2 + 1 / sqrt 2) / sqrt 2 = (1::real)"
    by (simp add: field_simps)
  then have "state (hadamard (hadamard q)) = (1, 0)"
    using assms by (simp add: hadamard_def)
  moreover have "appliedGates (hadamard (hadamard q)) = appliedGates q @ [''H'', ''H'']"
    by (simp add: hadamard_def split: prod.splits)
  ultimately show ?thesis by simp
qed

theorem hadamard_twice_basis_witness:
  "state (new_Qubit ''A0'') = (1, 0)
   \<and> state (hadamard (hadamard (new_Qubit ''A0''))) = (1, 0)
   \<and> appliedGates (hadamard (hadamard (new_Qubit ''A0''))) = [''H'', ''H'']"
proof -
  have h: "state (new_Qubit ''A0'') = (1, 0)"
    by (simp add: new_Qubit_def)
  have e: "appliedGates (new_Qubit ''A0'') = []"
    by (simp add: new_Qubit_def)
  from hadamard_twice_basis [OF h] h e show ?thesis by simp
qed

section \<open>Properties of a circuit\<close>

lemma frame_foldl:
  assumes "\<And>d x. frame (f d x) = frame d"
  shows "frame (foldl f c xs) = frame c"
  by (induction xs arbitrary: c) (simp_all add: assms)

lemma map_id_update:
  assumes "\<And>q. qubit_id (f q) = qubit_id q"
  shows "map qubit_id (qs[i := f (qs ! i)]) = map qubit_id qs"
proof (cases "i < length qs")
  case True
  then show ?thesis by (simp add: map_update assms list_update_same_conv)
next
  case False
  then show ?thesis by (simp add: list_update_beyond)
qed

lemma frame_upd_qubit:
  assumes "\<And>q. qubit_id (f q) = qubit_id q"
  shows "frame (upd_qubit i f c) = frame c"
  using map_id_update [of f "qubits c" i, OF assms]
  by (simp add: frame_def upd_qubit_def)

lemma frame_entangleQubits: "frame (entangleQubits i j c) = frame c"
  by (simp add: entangleQubits_def Let_def frame_upd_qubit)

lemma frame_createIntra: "frame (createIntraCircuitEntanglement c) = frame c"
  unfolding createIntraCircuitEntanglement_def
  by (rule frame_foldl) (simp add: frame_entangleQubits split: prod.splits)

lemma frame_swap: "frame (swap i j c) = frame c"
  by (simp add: swap_def Let_def frame_upd_qubit)

lemma qubit_id_pauliX: "qubit_id (pauliX q) = qubit_id q"
  by (simp add: pauliX_def)

lemma frame_ccnot: "frame (ccnot a b t c) = frame c"
  by (simp add: ccnot_def Let_def frame_upd_qubit frame_entangleQubits qubit_id_pauliX)

lemma qubit_id_apply_selected: "qubit_id (apply_selected sel i q) = qubit_id q"
  by (simp add: apply_selected_def gate_if_def Let_def hadamard_def pauliX_def pauliY_def
      pauliZ_def rotationX_def rotationY_def rotationZ_def tGate_def split: prod.splits)

lemma map_id_enumerate:
  assumes "\<And>i q. qubit_id (f i q) = qubit_id q"
  shows "map qubit_id (map (\<lambda>(i, q). f i q) (enumerate n qs)) = map qubit_id qs"
  by (induction qs arbitrary: n) (simp_all add: assms)

lemma frame_setupCircuit: "frame (setupCircuit c) = frame c"
proof (cases "selectedGates c")
  case None
  then show ?thesis by (simp add: setupCircuit_def)
next
  case (Some sel)
  let ?c1 = "c\<lparr>qubits := map (\<lambda>(i, q). apply_selected sel i q) (enumerate 0 (qubits c))\<rparr>"
  have 1: "frame ?c1 = frame c"
    using map_id_enumerate [of "apply_selected sel" 0 "qubits c"]
    by (simp add: frame_def qubit_id_apply_selected)
  have sw: "\<And>d x. frame ((\<lambda>d (i, isSwap). if isSwap then swap i (i + 1) d else d) d x) = frame d"
    by (simp add: frame_swap split: prod.splits)
  have cc: "\<And>d x. frame ((\<lambda>d (i, isCCNOT). if isCCNOT then ccnot i (i + 1) (i + 2) d else d) d x) = frame d"
    by (simp add: frame_ccnot split: prod.splits)
  show ?thesis
    using Some by (simp add: setupCircuit_def Let_def frame_foldl [OF cc] frame_foldl [OF sw] frame_createIntra 1)
qed

lemma frame_circuit_evolve: "frame (circuit_evolve dt c) = frame c"
  using map_id_enumerate [of "\<lambda>i q. (let omega = 0.1 + real i * 0.03;
               q1 = q\<lparr>phase := phase q + omega * dt\<rparr>;
               angle = 0.008 * sin (phase q1)
           in rotationZ angle q1)" 0 "qubits c"]
  by (simp add: frame_def circuit_evolve_def Let_def rotationZ_def split: prod.splits)


lemma measure_qubit_id: "qubit_id (snd (measure_qubit r q)) = qubit_id q"
  by (simp add: measure_qubit_def Let_def)

lemma map_id_measured:
  "map qubit_id (map snd (map (\<lambda>(i, q). measure_qubit (rnd i) q) (enumerate n qs))) = map qubit_id qs"
  by (induction qs arbitrary: n) (simp_all add: measure_qubit_id)

lemma length_measured:
  "length (map (\<lambda>(i, q). measure_qubit (rnd i) q) (enumerate n qs)) = length qs"
  by simp

lemma bits_measured:
  "set (map fst (map (\<lambda>(i, q). measure_qubit (rnd i) q) (enumerate n qs))) \<subseteq> {0, 1}"
  by (induction qs arbitrary: n) (simp_all add: measure_qubit_def Let_def)

lemma core_of_frame: "frame d = frame c \<Longrightarrow> core d = core c"
  by (simp add: frame_def core_def)

lemma history_of_frame: "frame d = frame c \<Longrightarrow> measurementHistory d = measurementHistory c"
  by (simp add: frame_def)

lemma connections_of_frame:
  "frame d = frame c \<Longrightarrow> interCircuitConnections d = interCircuitConnections c"
  by (simp add: frame_def)

lemma core_measureAll: "core (snd (measureAll rnd now c)) = core c"
  using map_id_measured [of rnd 0 "qubits c"]
  by (simp add: measureAll_def Let_def core_def)

lemma history_measureAll:
  "length (measurementHistory c) \<le> 100 \<Longrightarrow>
   length (measurementHistory (snd (measureAll rnd now c))) \<le> 100"
  by (simp add: measureAll_def Let_def)

lemma map_id_reset: "map qubit_id (map reset qs) = map qubit_id qs"
  by (induction qs) (simp_all add: reset_def)

lemma frame_resetCircuit:
  "frame (resetCircuit c) = (numQubits c, circuitId c, selectedGates c, [], [], map qubit_id (qubits c))"
proof -
  have "frame (resetCircuit c) = frame (c\<lparr>qubits := map reset (qubits c),
      measurementHistory := [], interCircuitConnections := []\<rparr>)"
    by (simp add: resetCircuit_def frame_setupCircuit)
  also have "\<dots> = (numQubits c, circuitId c, selectedGates c, [], [], map qubit_id (qubits c))"
    using map_id_reset [of "qubits c"] by (simp add: frame_def)
  finally show ?thesis .
qed

lemma frame_interEntanglePair:
  "frame (fst (interEntanglePair (t, o') p)) = frame t \<and> frame (snd (interEntanglePair (t, o') p)) = frame o'"
  by (cases p) (simp add: interEntanglePair_def Let_def frame_upd_qubit)

lemma frame_inter_foldl:
  "frame (fst (foldl interEntanglePair (t, o') ps)) = frame t
   \<and> frame (snd (foldl interEntanglePair (t, o') ps)) = frame o'"
proof (induction ps arbitrary: t o')
  case Nil
  show ?case by simp
next
  case (Cons p ps)
  obtain t1 o1 where s: "interEntanglePair (t, o') p = (t1, o1)"
    by (cases "interEntanglePair (t, o') p")
  with frame_interEntanglePair [of t o' p] have "frame t1 = frame t" "frame o1 = frame o'"
    by simp_all
  with Cons.IH [of t1 o1] s show ?case by simp
qed

lemma core_createInter_fst: "core (fst (createInterCircuitEntanglement c other conns)) = core c"
  using frame_inter_foldl [of "c\<lparr>interCircuitConnections := conns\<rparr>" other conns]
  by (simp add: createInterCircuitEntanglement_def core_def frame_def)

lemma history_createInter_fst:
  "measurementHistory (fst (createInterCircuitEntanglement c other conns)) = measurementHistory c"
  using frame_inter_foldl [of "c\<lparr>interCircuitConnections := conns\<rparr>" other conns]
  by (simp add: createInterCircuitEntanglement_def frame_def)

lemma frame_createInter_snd: "frame (snd (createInterCircuitEntanglement r c conns)) = frame c"
  using frame_inter_foldl [of "r\<lparr>interCircuitConnections := conns\<rparr>" c conns]
  by (simp add: createInterCircuitEntanglement_def)

lemma core_apply_op: "core (apply_op c x) = core c"
proof (cases x)
  case ResetCircuit
  then show ?thesis using frame_resetCircuit [of c] by (simp add: core_def frame_def)
qed (simp_all add: core_measureAll core_createInter_fst
      core_of_frame [OF frame_circuit_evolve] core_of_frame [OF frame_setupCircuit]
      core_of_frame [OF frame_swap] core_of_frame [OF frame_ccnot]
      core_of_frame [OF frame_entangleQubits] core_of_frame [OF frame_createIntra]
      core_of_frame [OF frame_createInter_snd])

lemma history_apply_op:
  assumes "length (measurementHistory c) \<le> 100"
  shows "length (measurementHistory (apply_op c x)) \<le> 100"
proof (cases x)
  case ResetCircuit
  then show ?thesis using frame_resetCircuit [of c] by (simp add: frame_def)
next
  case (MeasureAll rnd now)
  then show ?thesis using assms by (simp add: history_measureAll)
qed (simp_all add: assms history_createInter_fst
      history_of_frame [OF frame_circuit_evolve] history_of_frame [OF frame_setupCircuit]
      history_of_frame [OF frame_swap] history_of_frame [OF frame_ccnot]
      history_of_frame [OF frame_entangleQubits] history_of_frame [OF frame_createIntra]
      history_of_frame [OF frame_createInter_snd])

lemma core_run_ops: "core (run_ops c ops) = core c"
  unfolding run_ops_def by (induction ops arbitrary: c) (simp_all add: core_apply_op)

lemma history_run_ops:
  "length (measurementHistory c) \<le> 100 \<Longrightarrow> length (measurementHistory (run_ops c ops)) \<le> 100"
  unfolding run_ops_def by (induction ops arbitrary: c) (simp_all add: history_apply_op)

lemma frame_new: "frame (new_QuantumCircuit n cid sel) =
  (n, cid, sel, [], [], map (\<lambda>i. cid @ show_nat i) [0..<n])"
  by (simp add: new_QuantumCircuit_def frame_setupCircuit) (simp add: frame_def new_Qubit_def comp_def)

lemma core_new: "core (new_QuantumCircuit n cid sel) = (n, cid, sel, map (\<lambda>i. cid @ show_nat i) [0..<n])"
  using frame_new [of n cid sel] by (simp add: frame_def core_def)

lemma reset_fresh:
  assumes "map qubit_id qs = ids"
  shows "map reset qs = map new_Qubit ids"
  using assms by (induction qs arbitrary: ids) (auto simp: reset_def new_Qubit_def)

lemma resetCircuit_of_core:
  assumes "core c = (n, cid, sel, map (\<lambda>i. cid @ show_nat i) [0..<n])"
  shows "resetCircuit c = new_QuantumCircuit n cid sel"
proof -
  from assms have f: "numQubits c = n" "circuitId c = cid" "selectedGates c = sel"
    and i: "map qubit_id (qubits c) = map (\<lambda>i. cid @ show_nat i) [0..<n]"
    by (simp_all add: core_def)
  have "map reset (qubits c) = map new_Qubit (map (\<lambda>i. cid @ show_nat i) [0..<n])"
    by (rule reset_fresh [OF i])
  then have "c\<lparr>qubits := map reset (qubits c), measurementHistory := [],
      interCircuitConnections := []\<rparr> =
      \<lparr>numQubits = n, circuitId = cid, qubits = map (\<lambda>i. new_Qubit (cid @ show_nat i)) [0..<n],
       measurementHistory = [], selectedGates = sel, interCircuitConnections = []\<rparr>"
    using f by (simp add: comp_def)
  then show ?thesis by (simp add: resetCircuit_def new_QuantumCircuit_def)
qed

text \<open>
  Claim C6. For every gate selection, and after any sequence of method calls on a circuit
  built by the constructor, \<open>resetCircuit()\<close> leaves a circuit equal to the freshly
  constructed circuit with the same qubit count, \<open>circuitId\<close> and gate selection: the
  states, phases and applied-gate lists of the qubits are identical, and
  \<open>measurementHistory\<close> and \<open>interCircuitConnections\<close> are empty.
\<close>

theorem resetCircuit_fresh:
  "resetCircuit (run_ops (new_QuantumCircuit n cid sel) ops) = new_QuantumCircuit n cid sel
   \<and> map state (qubits (resetCircuit (run_ops (new_QuantumCircuit n cid sel) ops))) =
       map state (qubits (new_QuantumCircuit n cid sel))
   \<and> map phase (qubits (resetCircuit (run_ops (new_QuantumCircuit n cid sel) ops))) =
       map phase (qubits (new_QuantumCircuit n cid sel))
   \<and> map appliedGates (qubits (resetCircuit (run_ops (new_QuantumCircuit n cid sel) ops))) =
       map appliedGates (qubits (new_QuantumCircuit n cid sel))
   \<and> measurementHistory (resetCircuit (run_ops (new_QuantumCircuit n cid sel) ops)) = []
   \<and> interCircuitConnections (resetCircuit (run_ops (new_QuantumCircuit n cid sel) ops)) = []"
proof -
  have "core (run_ops (new_QuantumCircuit n cid sel) ops) =
      (n, cid, sel, map (\<lambda>i. cid @ show_nat i) [0..<n])"
    by (simp add: core_run_ops core_new)
  then have "resetCircuit (run_ops (new_QuantumCircuit n cid sel) ops) = new_QuantumCircuit n cid sel"
    by (rule resetCircuit_of_core)
  then show ?thesis using frame_new [of n cid sel] by (simp add: frame_def)
qed


theorem resetCircuit_fresh_witness:
  "resetCircuit (run_ops (new_QuantumCircuit 5 ''A'' (Some freshGates))
       [Evolve (1/10), MeasureAll (\<lambda>i. 1/4) 0]) = new_QuantumCircuit 5 ''A'' (Some freshGates)
   \<and> measurementHistory (resetCircuit (run_ops (new_QuantumCircuit 5 ''A'' (Some freshGates))
       [Evolve (1/10), MeasureAll (\<lambda>i. 1/4) 0])) = []"
  using resetCircuit_fresh [of 5 "''A''" "Some freshGates" "[Evolve (1/10), MeasureAll (\<lambda>i. 1/4) 0]"]
  by blast

lemmas circuit_defs = new_QuantumCircuit_def setupCircuit_def createIntraCircuitEntanglement_def
  entangleQubits_def upd_qubit_def swap_def ccnot_def apply_selected_def gate_if_def flag_at_def
  new_Qubit_def getProbability1_def getProbability0_def

lemma upt5: "[0..<5] = [0,1,2,3,4]" by (simp add: upt_rec)

lemma length_qubits_of_core:
  "core c = (n, cid, sel, map f [0..<n]) \<Longrightarrow> length (qubits c) = n"
proof -
  assume "core c = (n, cid, sel, map f [0..<n])"
  then have "map qubit_id (qubits c) = map f [0..<n]" by (simp add: core_def)
  then have "length (map qubit_id (qubits c)) = length (map f [0..<n])" by simp
  then show ?thesis by simp
qed

lemma measureAll_history:
  assumes "length (measurementHistory c) \<le> 100"
  shows "measurementHistory (snd (measureAll rnd now c)) =
     (if length (measurementHistory c) < 100 then measurementHistory c
      else tl (measurementHistory c)) @
     [\<lparr>timestamp = now, results = fst (measureAll rnd now c),
       probabilities = map getProbability1 (qubits (snd (measureAll rnd now c)))\<rparr>]"
proof (cases "length (measurementHistory c) < 100")
  case True
  then show ?thesis by (simp add: measureAll_def Let_def)
next
  case False
  with assms have "length (measurementHistory c) = 100" by simp
  then have "measurementHistory c \<noteq> []" by auto
  with False show ?thesis by (simp add: measureAll_def Let_def)
qed

lemma measureAll_results:
  "length (fst (measureAll rnd now c)) = length (qubits c) \<and> set (fst (measureAll rnd now c)) \<subseteq> {0, 1}"
  using bits_measured [of rnd 0 "qubits c"] by (simp add: measureAll_def Let_def)

text \<open>
  Claim C10. The measurement history never has more than 100 entries. After any sequence
  of method calls on a circuit built by the constructor the history has at most 100
  entries; a call of \<open>measureAll()\<close> then appends exactly one snapshot, whose results are
  one bit (0 or 1) per qubit (5 for a 5-qubit circuit), and drops the oldest entry when
  the history already held 100.
\<close>

theorem measurementHistory_bounded:
  "length (measurementHistory (run_ops (new_QuantumCircuit n cid sel) ops)) \<le> 100
   \<and> (let c = run_ops (new_QuantumCircuit n cid sel) ops;
           res = fst (measureAll rnd now c);
           c' = snd (measureAll rnd now c);
           snap = \<lparr>timestamp = now, results = res,
                    probabilities = map getProbability1 (qubits c')\<rparr>
       in measurementHistory c' =
            (if length (measurementHistory c) < 100 then measurementHistory c
             else tl (measurementHistory c)) @ [snap]
          \<and> length res = n \<and> set res \<subseteq> {0, 1}
          \<and> length (measurementHistory c') \<le> 100)"
proof -
  let ?c = "run_ops (new_QuantumCircuit n cid sel) ops"
  have "measurementHistory (new_QuantumCircuit n cid sel) = []"
    using frame_new [of n cid sel] by (simp add: frame_def)
  then have h: "length (measurementHistory ?c) \<le> 100"
    by (simp add: history_run_ops)
  have "core ?c = (n, cid, sel, map (\<lambda>i. cid @ show_nat i) [0..<n])"
    by (simp add: core_run_ops core_new)
  then have l: "length (qubits ?c) = n"
    by (rule length_qubits_of_core)
  show ?thesis
    using h l measureAll_history [OF h, of rnd now] measureAll_results [of rnd now ?c]
      history_measureAll [OF h, of rnd now]
    by (simp add: Let_def)
qed

theorem measurementHistory_bounded_witness:
  "length (measurementHistory (run_ops (new_QuantumCircuit 5 ''A'' (Some freshGates))
       [MeasureAll (\<lambda>i. 1/4) 0, MeasureAll (\<lambda>i. 3/4) 1])) \<le> 100
   \<and> length (fst (measureAll (\<lambda>i. 1/4) 2 (run_ops (new_QuantumCircuit 5 ''A'' (Some freshGates))
       [MeasureAll (\<lambda>i. 1/4) 0, MeasureAll (\<lambda>i. 3/4) 1]))) = 5"
  using measurementHistory_bounded [of 5 "''A''" "Some freshGates"
      "[MeasureAll (\<lambda>i. 1/4) 0, MeasureAll (\<lambda>i. 3/4) 1]" "\<lambda>i. 1/4" 2]
  by (simp add: Let_def)

lemma inter_pair_elsewhere:
  assumes "a \<noteq> i" and "b \<noteq> j"
  shows "qubits (fst (interEntanglePair (t, u) (a, b))) ! i = qubits t ! i
       \<and> qubits (snd (interEntanglePair (t, u) (a, b))) ! j = qubits u ! j"
  using assms by (simp add: interEntanglePair_def Let_def upd_qubit_def)

lemma inter_foldl_elsewhere:
  assumes "\<forall>(a, b) \<in> set ps. a \<noteq> i \<and> b \<noteq> j"
  shows "qubits (fst (foldl interEntanglePair (t, u) ps)) ! i = qubits t ! i
       \<and> qubits (snd (foldl interEntanglePair (t, u) ps)) ! j = qubits u ! j"
  using assms
proof (induction ps arbitrary: t u)
  case Nil
  show ?case by simp
next
  case (Cons p ps)
  obtain a b where p: "p = (a, b)" by (cases p)
  obtain t1 u1 where s: "interEntanglePair (t, u) (a, b) = (t1, u1)"
    by (cases "interEntanglePair (t, u) (a, b)")
  from Cons.prems p have ne: "a \<noteq> i" "b \<noteq> j" by auto
  from inter_pair_elsewhere [OF ne, of t u] s
  have 1: "qubits t1 ! i = qubits t ! i" "qubits u1 ! j = qubits u ! j" by simp_all
  from Cons.prems have "\<forall>(a, b) \<in> set ps. a \<noteq> i \<and> b \<noteq> j" by simp
  from Cons.IH [OF this, of t1 u1] 1 p s show ?case by simp
qed

lemma inter_pair_here:
  assumes "i < numQubits t" "i < length (qubits t)" "j < numQubits u" "j < length (qubits u)"
  shows "qubits (fst (interEntanglePair (t, u) (i, j))) ! i =
      (qubits t ! i)\<lparr>state := ((fst (state (qubits t ! i)) + fst (state (qubits u ! j))) / sqrt 2,
                               (snd (state (qubits t ! i)) + snd (state (qubits u ! j))) / sqrt 2),
        entangled := True,
        entangledWith := entangledWith (qubits t ! i) @ [Remote (circuitId u @ show_nat j)]\<rparr>
    \<and> qubits (snd (interEntanglePair (t, u) (i, j))) ! j =
      (qubits u ! j)\<lparr>state := ((fst (state (qubits t ! i)) + fst (state (qubits u ! j))) / sqrt 2,
                               (snd (state (qubits t ! i)) + snd (state (qubits u ! j))) / sqrt 2),
        entangled := True,
        entangledWith := entangledWith (qubits u ! j) @ [Remote (circuitId t @ show_nat i)]\<rparr>"
  using assms by (simp add: interEntanglePair_def Let_def upd_qubit_def)

lemma frame_sizes:
  "frame d = frame c \<Longrightarrow>
   numQubits d = numQubits c \<and> circuitId d = circuitId c \<and> length (qubits d) = length (qubits c)"
proof -
  assume f: "frame d = frame c"
  then have "map qubit_id (qubits d) = map qubit_id (qubits c)" by (simp add: frame_def)
  then have "length (qubits d) = length (qubits c)" by (rule map_eq_imp_length_eq)
  with f show ?thesis by (simp add: frame_def)
qed

text \<open>
  Claim C4, as amended. \<open>createInterCircuitEntanglement\<close> does not average: it divides the
  componentwise sum by \<open>\<surd>2\<close>, not by 2. For an in-range pair \<open>(i, j)\<close> of the list
  whose indices no other pair of the list uses (no other pair has \<open>i\<close> on the receiving
  side or \<open>j\<close> on the other side), after the call qubit \<open>i\<close> of the receiving circuit
  and qubit \<open>j\<close> of the other circuit hold the same state vector, the componentwise sum
  of their two previous state vectors divided by \<open>\<surd>2\<close>; both are marked entangled, and
  each has the partner's id \<open><circuitId><index>\<close> appended to \<open>entangledWith\<close>.
\<close>

theorem interCircuit_pair_superposed:
  assumes others: "\<forall>(a, b) \<in> set (pre @ post). a \<noteq> i \<and> b \<noteq> j"
    and ti: "i < numQubits this" "length (qubits this) = numQubits this"
    and uj: "j < numQubits otherCircuit" "length (qubits otherCircuit) = numQubits otherCircuit"
  shows "let this' = fst (createInterCircuitEntanglement this otherCircuit (pre @ (i, j) # post));
             other' = snd (createInterCircuitEntanglement this otherCircuit (pre @ (i, j) # post));
             s = state (qubits this ! i);
             u = state (qubits otherCircuit ! j);
             v = ((fst s + fst u) / sqrt 2, (snd s + snd u) / sqrt 2)
         in state (qubits this' ! i) = v \<and> state (qubits other' ! j) = v
            \<and> entangled (qubits this' ! i) \<and> entangled (qubits other' ! j)
            \<and> entangledWith (qubits this' ! i) =
                entangledWith (qubits this ! i) @ [Remote (circuitId otherCircuit @ show_nat j)]
            \<and> entangledWith (qubits other' ! j) =
                entangledWith (qubits otherCircuit ! j) @ [Remote (circuitId this @ show_nat i)]
            \<and> interCircuitConnections this' = pre @ (i, j) # post"
proof -
  define conns where "conns = pre @ (i, j) # post"
  let ?t0 = "this\<lparr>interCircuitConnections := conns\<rparr>"
  obtain t1 u1 where s1: "foldl interEntanglePair (?t0, otherCircuit) pre = (t1, u1)"
    by (cases "foldl interEntanglePair (?t0, otherCircuit) pre")
  obtain t2 u2 where s2: "interEntanglePair (t1, u1) (i, j) = (t2, u2)"
    by (cases "interEntanglePair (t1, u1) (i, j)")
  obtain t3 u3 where s3: "foldl interEntanglePair (t2, u2) post = (t3, u3)"
    by (cases "foldl interEntanglePair (t2, u2) post")
  have "foldl interEntanglePair (?t0, otherCircuit) (pre @ (i, j) # post) = (t3, u3)"
    by (simp add: s1 s2 s3)
  then have res: "createInterCircuitEntanglement this otherCircuit conns = (t3, u3)"
    by (simp add: createInterCircuitEntanglement_def conns_def)
  from others have o1: "\<forall>(a, b) \<in> set pre. a \<noteq> i \<and> b \<noteq> j"
    and o3: "\<forall>(a, b) \<in> set post. a \<noteq> i \<and> b \<noteq> j" by auto
  from inter_foldl_elsewhere [OF o1, of ?t0 otherCircuit] s1
  have q1: "qubits t1 ! i = qubits this ! i" "qubits u1 ! j = qubits otherCircuit ! j"
    by simp_all
  from frame_inter_foldl [of ?t0 otherCircuit pre] s1
  have f1: "frame t1 = frame ?t0" "frame u1 = frame otherCircuit" by simp_all
  from frame_sizes [OF f1(1)] frame_sizes [OF f1(2)]
  have z1: "numQubits t1 = numQubits this" "length (qubits t1) = length (qubits this)"
    "circuitId t1 = circuitId this"
    "numQubits u1 = numQubits otherCircuit" "length (qubits u1) = length (qubits otherCircuit)"
    "circuitId u1 = circuitId otherCircuit"
    by simp_all
  have r1: "i < numQubits t1" "i < length (qubits t1)" "j < numQubits u1" "j < length (qubits u1)"
    using z1 ti uj by simp_all
  from inter_pair_here [OF r1] s2 q1 z1
  have q2: "qubits t2 ! i =
      (qubits this ! i)\<lparr>state := ((fst (state (qubits this ! i)) + fst (state (qubits otherCircuit ! j))) / sqrt 2,
                               (snd (state (qubits this ! i)) + snd (state (qubits otherCircuit ! j))) / sqrt 2),
        entangled := True,
        entangledWith := entangledWith (qubits this ! i) @ [Remote (circuitId otherCircuit @ show_nat j)]\<rparr>"
    "qubits u2 ! j =
      (qubits otherCircuit ! j)\<lparr>state := ((fst (state (qubits this ! i)) + fst (state (qubits otherCircuit ! j))) / sqrt 2,
                               (snd (state (qubits this ! i)) + snd (state (qubits otherCircuit ! j))) / sqrt 2),
        entangled := True,
        entangledWith := entangledWith (qubits otherCircuit ! j) @ [Remote (circuitId this @ show_nat i)]\<rparr>"
    by simp_all
  from inter_foldl_elsewhere [OF o3, of t2 u2] s3
  have q3: "qubits t3 ! i = qubits t2 ! i" "qubits u3 ! j = qubits u2 ! j" by simp_all
  from frame_inter_foldl [of ?t0 otherCircuit conns] res
  have "frame t3 = frame ?t0" by (simp add: createInterCircuitEntanglement_def)
  then have c3: "interCircuitConnections t3 = conns" by (simp add: frame_def)
  show ?thesis
    unfolding conns_def [symmetric] by (simp add: res Let_def q3 q2 c3)
qed

lemma show_nat_2: "show_nat 2 = ''2''"
  by (simp add: show_nat.simps digit_char_def)

lemma sampleA:
  "numQubits (new_QuantumCircuit 5 ''A'' (Some initialGates)) = 5"
  "circuitId (new_QuantumCircuit 5 ''A'' (Some initialGates)) = ''A''"
  "length (qubits (new_QuantumCircuit 5 ''A'' (Some initialGates))) = 5"
  "state (qubits (new_QuantumCircuit 5 ''A'' (Some initialGates)) ! 2) = (1, 0)"
  "entangledWith (qubits (new_QuantumCircuit 5 ''A'' (Some initialGates)) ! 2) = [Local 3]"
  by (simp_all add: circuit_defs initialGates_def upt5 enumerate_eq_zip Let_def eval_nat_numeral)

lemma sampleB:
  "numQubits (new_QuantumCircuit 5 ''B'' (Some initialGates)) = 5"
  "circuitId (new_QuantumCircuit 5 ''B'' (Some initialGates)) = ''B''"
  "length (qubits (new_QuantumCircuit 5 ''B'' (Some initialGates))) = 5"
  "state (qubits (new_QuantumCircuit 5 ''B'' (Some initialGates)) ! 2) = (1, 0)"
  "entangledWith (qubits (new_QuantumCircuit 5 ''B'' (Some initialGates)) ! 2) = [Local 3]"
  by (simp_all add: circuit_defs initialGates_def upt5 enumerate_eq_zip Let_def eval_nat_numeral)

lemma two_over_sqrt2: "2 / sqrt 2 = sqrt 2"
  by (simp add: real_div_sqrt)

theorem interCircuit_pair_superposed_witness:
  "state (qubits (fst (createInterCircuitEntanglement
       (new_QuantumCircuit 5 ''A'' (Some initialGates))
       (new_QuantumCircuit 5 ''B'' (Some initialGates)) [(0, 1), (2, 2), (3, 4)])) ! 2) = (sqrt 2, 0)
   \<and> state (qubits (snd (createInterCircuitEntanglement
       (new_QuantumCircuit 5 ''A'' (Some initialGates))
       (new_QuantumCircuit 5 ''B'' (Some initialGates)) [(0, 1), (2, 2), (3, 4)])) ! 2) = (sqrt 2, 0)
   \<and> entangledWith (qubits (fst (createInterCircuitEntanglement
       (new_QuantumCircuit 5 ''A'' (Some initialGates))
       (new_QuantumCircuit 5 ''B'' (Some initialGates)) [(0, 1), (2, 2), (3, 4)])) ! 2) =
         [Local 3, Remote ''B2'']
   \<and> entangledWith (qubits (snd (createInterCircuitEntanglement
       (new_QuantumCircuit 5 ''A'' (Some initialGates))
       (new_QuantumCircuit 5 ''B'' (Some initialGates)) [(0, 1), (2, 2), (3, 4)])) ! 2) =
         [Local 3, Remote ''A2'']"
proof -
  let ?A = "new_QuantumCircuit 5 ''A'' (Some initialGates)"
  let ?B = "new_QuantumCircuit 5 ''B'' (Some initialGates)"
  have o: "\<forall>(a, b) \<in> set ([(0, 1)] @ [(3, 4)]). a \<noteq> (2::nat) \<and> b \<noteq> (2::nat)" by simp
  have a: "2 < numQubits ?A" "length (qubits ?A) = numQubits ?A"
    by (simp_all add: sampleA)
  have b: "2 < numQubits ?B" "length (qubits ?B) = numQubits ?B"
    by (simp_all add: sampleB)
  from interCircuit_pair_superposed [OF o a b]
  show ?thesis
    by (simp add: Let_def sampleA sampleB show_nat_2 two_over_sqrt2)
qed

theorem interCircuit_average_counterexample:
  "state (qubits (new_QuantumCircuit 5 ''A'' (Some initialGates)) ! 2) = (1, 0)
   \<and> state (qubits (new_QuantumCircuit 5 ''B'' (Some initialGates)) ! 2) = (1, 0)
   \<and> state (qubits (fst (createInterCircuitEntanglement
       (new_QuantumCircuit 5 ''A'' (Some initialGates))
       (new_QuantumCircuit 5 ''B'' (Some initialGates)) [(2, 2)])) ! 2) \<noteq> ((1 + 1) / 2, (0 + 0) / 2)"
proof -
  have "sqrt 2 \<noteq> 1" by simp
  then show ?thesis
  by (simp add: createInterCircuitEntanglement_def interEntanglePair_def Let_def upd_qubit_def
      sampleA sampleB two_over_sqrt2)
qed

text \<open>Marking qubits as entangled changes no state vector, and a CCNOT whose controls do
  not both have \<open>prob1 > 0.5\<close> changes none either.\<close>

lemma states_update:
  assumes "\<And>q. state (f q) = state q"
  shows "map state (qs[i := f (qs ! i)]) = map state qs"
proof (cases "i < length qs")
  case True
  then show ?thesis by (simp add: map_update assms list_update_same_conv)
next
  case False
  then show ?thesis by (simp add: list_update_beyond)
qed

lemma states_upd_qubit:
  assumes "\<And>q. state (f q) = state q"
  shows "map state (qubits (upd_qubit i f c)) = map state (qubits c)"
  using states_update [of f "qubits c" i, OF assms] by (simp add: upd_qubit_def)

lemma states_entangleQubits: "map state (qubits (entangleQubits i j c)) = map state (qubits c)"
  by (simp add: entangleQubits_def Let_def states_upd_qubit)

lemma nth_state:
  assumes "map state qs = map state qs'" and "i < length qs'"
  shows "state (qs ! i) = state (qs' ! i)"
proof -
  from assms(1) have l: "length qs = length qs'" by (rule map_eq_imp_length_eq)
  with assms(2) have "map state qs ! i = state (qs ! i)" "map state qs' ! i = state (qs' ! i)"
    by simp_all
  with assms(1) show ?thesis by simp
qed

lemma ccnot_not_fired:
  assumes "\<not> (getProbability1 (qubits c ! c1) > 0.5 \<and> getProbability1 (qubits c ! c2) > 0.5)"
    and "c1 < length (qubits c)" and "c2 < length (qubits c)"
  shows "map state (qubits (ccnot c1 c2 t c)) = map state (qubits c)"
proof (cases "c1 < numQubits c \<and> c2 < numQubits c \<and> t < numQubits c")
  case False
  then show ?thesis by (simp only: ccnot_def if_not_P if_False)
next
  case True
  let ?d = "entangleQubits c1 c2 (entangleQubits c2 t (entangleQubits c1 t c))"
  have s: "map state (qubits ?d) = map state (qubits c)"
    by (simp add: states_entangleQubits)
  from nth_state [OF s assms(2)] nth_state [OF s assms(3)]
  have "getProbability1 (qubits ?d ! c1) = getProbability1 (qubits c ! c1)"
    "getProbability1 (qubits ?d ! c2) = getProbability1 (qubits c ! c2)"
    by (simp_all add: getProbability1_def)
  with assms(1) have low: "\<not> (getProbability1 (qubits ?d ! c1) > 0.5 \<and> getProbability1 (qubits ?d ! c2) > 0.5)"
    by simp
  have "ccnot c1 c2 t c = ?d"
    using True low by (simp only: ccnot_def Let_def if_True if_not_P if_False simp_thms)
  with s show ?thesis by simp
qed

text \<open>The circuit of the scenario just before its CCNOT: no gate applied, the three
  fixed pairs marked.\<close>

lemma before_ccnot:
  "new_QuantumCircuit 5 ''A'' (Some (initialGates\<lparr>g_ccnot := [True, False, False]\<rparr>)) =
     ccnot 0 1 2 (createIntraCircuitEntanglement
       \<lparr>numQubits = 5, circuitId = ''A'',
        qubits = map (\<lambda>i. new_Qubit (''A'' @ show_nat i)) [0..<5],
        measurementHistory = [],
        selectedGates = Some (initialGates\<lparr>g_ccnot := [True, False, False]\<rparr>),
        interCircuitConnections = []\<rparr>)"
  by (simp add: new_QuantumCircuit_def setupCircuit_def Let_def initialGates_def enumerate_eq_zip
      upt5 apply_selected_def gate_if_def flag_at_def eval_nat_numeral)

lemma before_ccnot_qubits:
  "map state (qubits (createIntraCircuitEntanglement
       \<lparr>numQubits = 5, circuitId = ''A'',
        qubits = map (\<lambda>i. new_Qubit (''A'' @ show_nat i)) [0..<5],
        measurementHistory = [],
        selectedGates = Some (initialGates\<lparr>g_ccnot := [True, False, False]\<rparr>),
        interCircuitConnections = []\<rparr>)) = [(1, 0), (1, 0), (1, 0), (1, 0), (1, 0)]"
  by (simp add: createIntraCircuitEntanglement_def states_entangleQubits upt5 new_Qubit_def)

text \<open>
  Claim C8. A 5-qubit circuit built with only the CCNOT toggle for (0, 1, 2) on: qubit 2
  stays in state \<open>[1, 0]\<close> (the controls have \<open>prob1 = 0\<close>, so the conditional \<open>pauliX\<close>
  is not applied), and qubits 0, 1 and 2 are marked entangled.
\<close>

theorem ccnot_only_setup:
  "state (qubits (new_QuantumCircuit 5 ''A'' (Some (initialGates\<lparr>g_ccnot := [True, False, False]\<rparr>))) ! 2) = (1, 0)
   \<and> getProbability1 (qubits (new_QuantumCircuit 5 ''A'' (Some (initialGates\<lparr>g_ccnot := [True, False, False]\<rparr>))) ! 0) = 0
   \<and> getProbability1 (qubits (new_QuantumCircuit 5 ''A'' (Some (initialGates\<lparr>g_ccnot := [True, False, False]\<rparr>))) ! 1) = 0
   \<and> entangled (qubits (new_QuantumCircuit 5 ''A'' (Some (initialGates\<lparr>g_ccnot := [True, False, False]\<rparr>))) ! 0)
   \<and> entangled (qubits (new_QuantumCircuit 5 ''A'' (Some (initialGates\<lparr>g_ccnot := [True, False, False]\<rparr>))) ! 1)
   \<and> entangled (qubits (new_QuantumCircuit 5 ''A'' (Some (initialGates\<lparr>g_ccnot := [True, False, False]\<rparr>))) ! 2)
   \<and> appliedGates (qubits (new_QuantumCircuit 5 ''A'' (Some (initialGates\<lparr>g_ccnot := [True, False, False]\<rparr>))) ! 2) = []"
proof -
  let ?sel = "Some (initialGates\<lparr>g_ccnot := [True, False, False]\<rparr>)"
  let ?b = "createIntraCircuitEntanglement
       \<lparr>numQubits = 5, circuitId = ''A'',
        qubits = map (\<lambda>i. new_Qubit (''A'' @ show_nat i)) [0..<5],
        measurementHistory = [], selectedGates = ?sel, interCircuitConnections = []\<rparr>"
  let ?c = "new_QuantumCircuit 5 ''A'' ?sel"
  have c: "?c = ccnot 0 1 2 ?b" by (rule before_ccnot)
  have sb: "map state (qubits ?b) = [(1, 0), (1, 0), (1, 0), (1, 0), (1, 0)]"
    by (rule before_ccnot_qubits)
  then have "length (map state (qubits ?b)) = 5" by simp
  then have lb: "length (qubits ?b) = 5" by simp
  have nb: "\<And>i. i < 5 \<Longrightarrow> state (qubits ?b ! i) = (1, 0)"
  proof -
    fix i :: nat
    assume i: "i < 5"
    with lb have "map state (qubits ?b) ! i = state (qubits ?b ! i)" by simp
    moreover from i have "[(1, 0), (1, 0), (1, 0), (1, 0), (1::real, 0::real)] ! i = (1, 0)"
      by (auto simp: less_Suc_eq eval_nat_numeral)
    ultimately show "state (qubits ?b ! i) = (1, 0)" using sb by simp
  qed
  have p0: "getProbability1 (qubits ?b ! 0) = 0" and p1: "getProbability1 (qubits ?b ! 1) = 0"
    using nb [of 0] nb [of 1] by (simp_all add: getProbability1_def)
  then have low: "\<not> (getProbability1 (qubits ?b ! 0) > 0.5 \<and> getProbability1 (qubits ?b ! 1) > 0.5)"
    by simp
  have sc: "map state (qubits ?c) = map state (qubits ?b)"
    unfolding c using lb by (intro ccnot_not_fired [OF low]) simp_all
  from sc have lc: "length (qubits ?c) = 5" using lb map_eq_imp_length_eq by metis
  have st: "\<And>i. i < 5 \<Longrightarrow> state (qubits ?c ! i) = (1, 0)"
    using nth_state [OF sc] lb nb by simp
  have flags: "entangled (qubits ?c ! 0) \<and> entangled (qubits ?c ! 1) \<and> entangled (qubits ?c ! 2)
      \<and> appliedGates (qubits ?c ! 2) = []"
    by (simp add: circuit_defs initialGates_def upt5 enumerate_eq_zip Let_def eval_nat_numeral pauliX_def)
  from st [of 2] st [of 0] st [of 1] flags show ?thesis
    by (simp add: getProbability1_def)
qed

lemma fresh_qubits:
  "qubits (new_QuantumCircuit 5 ''A'' (Some freshGates)) =
    [\<lparr>qubit_id = ''A0'', state = (1 / sqrt 2, 1 / sqrt 2), phase = 0, entangled = True,
       entangledWith = [Local 1], appliedGates = [''H'']\<rparr>,
     \<lparr>qubit_id = ''A1'', state = (1 / sqrt 2, 1 / sqrt 2), phase = 0, entangled = True,
       entangledWith = [Local 0, Local 4], appliedGates = [''H'']\<rparr>,
     \<lparr>qubit_id = ''A2'', state = (1 / sqrt 2, 1 / sqrt 2), phase = 0, entangled = True,
       entangledWith = [Local 3], appliedGates = [''H'']\<rparr>,
     \<lparr>qubit_id = ''A3'', state = (1 / sqrt 2, 1 / sqrt 2), phase = 0, entangled = True,
       entangledWith = [Local 2], appliedGates = [''H'']\<rparr>,
     \<lparr>qubit_id = ''A4'', state = (1 / sqrt 2, 1 / sqrt 2), phase = 0, entangled = True,
       entangledWith = [Local 1], appliedGates = [''H'']\<rparr>]"
  by (simp add: circuit_defs initialGates_def freshGates_def upt5 enumerate_eq_zip Let_def
      eval_nat_numeral hadamard_def show_nat.simps digit_char_def)

text \<open>
  Claim C3, as amended. A 5-qubit circuit built with only \<open>hadamard\<close> on, for all five
  qubits: every qubit has the state \<open>[1/\<surd>2, 1/\<surd>2]\<close> (both components positive),
  so \<open>prob1 = 0.5\<close> for each qubit and \<open>getSystemProbability()\<close> is \<open>0.5\<^sup>5 = 0.03125\<close>.
\<close>

theorem hadamard_only_setup:
  "map state (qubits (new_QuantumCircuit 5 ''A'' (Some freshGates))) =
     [(1 / sqrt 2, 1 / sqrt 2), (1 / sqrt 2, 1 / sqrt 2), (1 / sqrt 2, 1 / sqrt 2),
      (1 / sqrt 2, 1 / sqrt 2), (1 / sqrt 2, 1 / sqrt 2)]
   \<and> map getProbability1 (qubits (new_QuantumCircuit 5 ''A'' (Some freshGates))) =
     [0.5, 0.5, 0.5, 0.5, 0.5]
   \<and> getSystemProbability (new_QuantumCircuit 5 ''A'' (Some freshGates)) = 0.5 ^ 5
   \<and> getSystemProbability (new_QuantumCircuit 5 ''A'' (Some freshGates)) = 0.03125"
proof -
  have p: "\<bar>1 / sqrt 2\<bar> ^ 2 = (1/2 :: real)"
    by (simp add: power2_eq_square)
  have g: "\<And>q. state q = (1 / sqrt 2, 1 / sqrt 2) \<Longrightarrow> getProbability1 q = 1/2"
    using p by (simp add: getProbability1_def)
  have five: "(1 / 2 :: real) ^ 5 = 1 / 32"
    by (simp add: power_divide)
  show ?thesis
    by (simp add: fresh_qubits getSystemProbability_def g five)
qed

theorem hadamard_only_state_counterexample:
  "state (qubits (new_QuantumCircuit 5 ''A'' (Some freshGates)) ! 0) \<noteq> (1 / sqrt 2, - 1 / sqrt 2)"
  by (simp add: fresh_qubits)

section \<open>Properties of the flow\<close>

lemma foldl_add_sum_list: "foldl (\<lambda>a b. a + b) (z::real) xs = z + sum_list xs"
  by (induction xs arbitrary: z) simp_all

lemma sum_list_scaled: "sum_list (map (\<lambda>p. p / s) xs) = sum_list xs / (s::real)"
  by (induction xs) (simp_all add: add_divide_distrib)

lemma sum_list_lower:
  assumes "\<forall>x \<in> set xs. (1/10 :: real) \<le> x" and "xs \<noteq> []"
  shows "0 < sum_list xs"
  using assms
proof (induction xs)
  case Nil
  then show ?case by simp
next
  case (Cons x xs)
  have "0 \<le> sum_list xs"
    using Cons.prems(1) by (intro sum_list_nonneg) force
  moreover have "1/10 \<le> x" using Cons.prems(1) by simp
  ultimately show ?case by simp
qed

lemma normalised_sum:
  assumes "\<forall>x \<in> set xs. (1/10 :: real) \<le> x" and "xs \<noteq> []"
  shows "sum_list (let sum = foldl (\<lambda>a b. a + b) 0 xs
                   in if sum > 0 then map (\<lambda>p. p / sum) xs else xs) = 1"
proof -
  have "0 < sum_list xs" by (rule sum_list_lower [OF assms])
  then show ?thesis
    by (simp add: Let_def foldl_add_sum_list sum_list_scaled)
qed

lemma density_sum:
  assumes "coords \<noteq> []"
  shows "sum_list (computeQuantumProbabilityDensity f coords sid) = 1"
proof -
  define g where "g = (\<lambda>(idx::nat, coord::real \<times> real).
               (let isCircuitB = (dualCircuitMode f \<and>
                      sid \<ge> (if dualCircuitMode f then 10 else 15));
                    circuit = (if isCircuitB then quantumCircuitB f else Some (quantumCircuitA f));
                    quantumProb =
                      (case circuit of
                         None \<Rightarrow> 0.5
                       | Some c \<Rightarrow>
                           (let qubitIdx = sid mod 5
                            in if qubitIdx < length (qubits c) then
                                 (let t = real idx / real (length coords)
                                  in getProbability1 (qubits c ! qubitIdx) *
                                     (1 + 0.4 * sin (4 * pi * t + phase (qubits c ! qubitIdx))))
                               else 0.5))
                in max (0.1::real) quantumProb))"
  define pd where "pd = map g (enumerate 0 coords)"
  have ge: "\<forall>x \<in> set pd. (1/10 :: real) \<le> x"
    by (auto simp: pd_def g_def Let_def)
  have "length pd = length coords"
    by (simp add: pd_def)
  with assms have ne: "pd \<noteq> []"
    by auto
  have "computeQuantumProbabilityDensity f coords sid =
      (let sum = foldl (\<lambda>a b. a + b) 0 pd in if sum > 0 then map (\<lambda>p. p / sum) pd else pd)"
    unfolding computeQuantumProbabilityDensity_def pd_def g_def using assms
    by (simp only: Let_def length_0_conv if_False)
  then show ?thesis
    using normalised_sum [OF ge ne] by simp
qed

lemma density_length:
  "length (computeQuantumProbabilityDensity f coords sid) = length coords"
  by (simp add: computeQuantumProbabilityDensity_def Let_def)


lemma interpolateVelocity_total:
  assumes "ACTIVE_LAYER < length (masaInformativaLayers f)"
  shows "\<exists>v. interpolateVelocity f p = Inr v"
  using assms by (simp add: interpolateVelocity_def Let_def)

lemma integrate_steps_total:
  assumes "ACTIVE_LAYER < length (masaInformativaLayers f)"
  shows "\<exists>cs. integrate_steps f n p coords = Inr cs"
proof (induction n arbitrary: p coords)
  case 0
  show ?case by simp
next
  case (Suc n)
  obtain v where v: "interpolateVelocity f p = Inr v"
    using interpolateVelocity_total [OF assms] by blast
  show ?case
    using Suc.IH by (simp add: v Let_def)
qed

lemma add_streamline_total:
  assumes "ACTIVE_LAYER < length (masaInformativaLayers f)"
  shows "\<exists>acc'. add_streamline f rnd acc i = Inr acc'"
proof -
  obtain cs where "integrate_steps f 500 (start_point f rnd i) [start_point f rnd i] = Inr cs"
    using integrate_steps_total [OF assms] by blast
  then show ?thesis
    by (simp add: add_streamline_def integrateStreamline_def)
qed

lemma add_streamline_normalised:
  assumes "add_streamline f rnd acc i = Inr acc'" and "\<forall>s \<in> set acc. normalised s"
  shows "\<forall>s \<in> set acc'. normalised s"
proof (cases "integrateStreamline f (start_point f rnd i)")
  case (Inl e)
  with assms(1) show ?thesis by (simp add: add_streamline_def)
next
  case (Inr cs)
  show ?thesis
  proof (cases "length cs > 1")
    case True
    then have "cs \<noteq> []" by auto
    then have "normalised \<lparr>coordinates = cs,
                   probabilityDensity = computeQuantumProbabilityDensity f cs i,
                   streamline_phase = computeQuantumPhase f cs i,
                   coherenceLength = computeCoherenceLength f cs\<rparr>"
      by (simp add: normalised_def density_sum density_length)
    with assms Inr True show ?thesis
      by (auto simp: add_streamline_def)
  next
    case False
    with assms Inr show ?thesis by (simp add: add_streamline_def)
  qed
qed

lemma streamlines_loop_total:
  assumes "ACTIVE_LAYER < length (masaInformativaLayers f)"
  shows "\<exists>ss. streamlines_loop f rnd acc ks = Inr ss"
proof (induction ks arbitrary: acc)
  case Nil
  show ?case by simp
next
  case (Cons k ks)
  obtain acc' where "add_streamline f rnd acc k = Inr acc'"
    using add_streamline_total [OF assms] by blast
  then show ?case using Cons.IH by simp
qed

lemma streamlines_loop_normalised:
  assumes "streamlines_loop f rnd acc ks = Inr ss" and "\<forall>s \<in> set acc. normalised s"
  shows "\<forall>s \<in> set ss. normalised s"
  using assms
proof (induction ks arbitrary: acc)
  case Nil
  then show ?case by simp
next
  case (Cons k ks)
  show ?case
  proof (cases "add_streamline f rnd acc k")
    case (Inl e)
    with Cons.prems(1) show ?thesis by simp
  next
    case (Inr acc')
    then have "\<forall>s \<in> set acc'. normalised s"
      using add_streamline_normalised Cons.prems(2) by blast
    moreover from Cons.prems(1) Inr have "streamlines_loop f rnd acc' ks = Inr ss" by simp
    ultimately show ?thesis by (rule Cons.IH [rotated])
  qed
qed

lemma updateMasa_fields:
  assumes "updateMasaInformativaFromQuantum f = Inr f'"
  shows "streamlines f' = streamlines f \<and> grid_nx f' = grid_nx f \<and> grid_ny f' = grid_ny f
     \<and> grid_x f' = grid_x f \<and> grid_y f' = grid_y f \<and> flow_time f' = flow_time f
     \<and> quantumCircuitB f' = quantumCircuitB f \<and> dualCircuitMode f' = dualCircuitMode f"
  using assms by (auto simp: updateMasaInformativaFromQuantum_def Let_def split: if_splits)

lemma perturb_density:
  "map (probabilityDensity \<circ> (\<lambda>(k, s). perturb_streamline g t (r k) s)) (enumerate n xs) =
   map probabilityDensity xs"
  by (induction xs arbitrary: n) (simp_all add: perturb_streamline_def Let_def)

lemma flow_evolve_density:
  assumes "flow_evolve dt rnd f = Inr f'"
  shows "map probabilityDensity (streamlines f') = map probabilityDensity (streamlines f)"
proof -
  let ?f2 = "f\<lparr>flow_time := flow_time f + dt,
               quantumCircuitA := circuit_evolve dt (quantumCircuitA f)\<rparr>"
  from assms obtain f3 where u: "updateMasaInformativaFromQuantum ?f2 = Inr f3"
    by (auto simp: flow_evolve_def Let_def split: sum.splits)
  from updateMasa_fields [OF u] have s3: "streamlines f3 = streamlines f" by simp
  from assms u s3 show ?thesis
    by (auto simp: flow_evolve_def Let_def perturb_density split: option.splits)
qed


lemma update_rows_lengths:
  "map length (map (\<lambda>(i, row). if i < n then update_row f i row else row) (enumerate k d)) =
   map length d"
  by (induction d arbitrary: k) (simp_all add: update_row_def)

lemma rows_wide_lengths:
  "list_all (\<lambda>row. n \<le> length row) (take m d) = list_all (\<lambda>l. n \<le> l) (take m (map length d))"
  by (simp add: list_all_iff take_map)

lemma grid_ok_lengths:
  assumes "length (masaInformativaLayers g) = length (masaInformativaLayers f)"
    and "map length (density (masaInformativaLayers g ! ACTIVE_LAYER)) =
         map length (density (masaInformativaLayers f ! ACTIVE_LAYER))"
    and "grid_nx g = grid_nx f" "grid_ny g = grid_ny f"
    and "length (grid_x g) = length (grid_x f)" "length (grid_y g) = length (grid_y f)"
  shows "grid_ok g = grid_ok f"
proof -
  have "length (density (masaInformativaLayers g ! ACTIVE_LAYER)) =
      length (density (masaInformativaLayers f ! ACTIVE_LAYER))"
    using assms(2) by (rule map_eq_imp_length_eq)
  then show ?thesis
    using assms by (simp add: grid_ok_def rows_wide_lengths)
qed

lemma updateMasa_total:
  assumes "grid_ok f"
  shows "\<exists>f'. updateMasaInformativaFromQuantum f = Inr f' \<and> grid_ok f'"
proof (cases "grid_nx f = 0 \<or> grid_ny f = 0")
  case True
  with assms show ?thesis by (simp add: updateMasaInformativaFromQuantum_def)
next
  case False
  let ?layer = "masaInformativaLayers f ! ACTIVE_LAYER"
  let ?d = "map (\<lambda>(i, row). if i < grid_ny f then update_row f i row else row)
              (enumerate 0 (density ?layer))"
  let ?f' = "f\<lparr>masaInformativaLayers :=
                 (masaInformativaLayers f)[ACTIVE_LAYER := ?layer\<lparr>density := ?d\<rparr>]\<rparr>"
  from assms have a: "ACTIVE_LAYER < length (masaInformativaLayers f)"
    and r: "grid_ny f \<le> length (density ?layer)"
    by (simp_all add: grid_ok_def)
  have u: "updateMasaInformativaFromQuantum f = Inr ?f'"
    using False a r assms by (simp add: updateMasaInformativaFromQuantum_def Let_def)
  have "map length (density (masaInformativaLayers ?f' ! ACTIVE_LAYER)) =
      map length (density ?layer)"
    using a update_rows_lengths [of "grid_ny f" f 0 "density ?layer"] by simp
  then have "grid_ok ?f' = grid_ok f"
    by (intro grid_ok_lengths) simp_all
  with assms u show ?thesis by simp
qed

lemma flow_evolve_total:
  assumes "grid_ok f"
  shows "\<exists>f'. flow_evolve dt rnd f = Inr f' \<and> grid_ok f'"
proof -
  let ?f2 = "f\<lparr>flow_time := flow_time f + dt,
               quantumCircuitA := circuit_evolve dt (quantumCircuitA f)\<rparr>"
  have "grid_ok ?f2 = grid_ok f"
    by (intro grid_ok_lengths) simp_all
  with assms have "grid_ok ?f2" by simp
  then obtain f3 where u: "updateMasaInformativaFromQuantum ?f2 = Inr f3" and g3: "grid_ok f3"
    using updateMasa_total by blast
  let ?f4 = "case quantumCircuitB f3 of
                          Some b \<Rightarrow> if dualCircuitMode f3
                                    then f3\<lparr>quantumCircuitB := Some (circuit_evolve dt b)\<rparr> else f3
                        | None \<Rightarrow> f3"
  let ?f5 = "?f4\<lparr>streamlines := map (\<lambda>(k, s). perturb_streamline ?f4 (flow_time ?f4) (rnd k) s)
                                            (enumerate 0 (streamlines ?f4))\<rparr>"
  have e: "flow_evolve dt rnd f = Inr ?f5"
    using u by (simp add: flow_evolve_def Let_def)
  have "grid_ok ?f5 = grid_ok f3"
    by (intro grid_ok_lengths) (simp_all split: option.splits)
  with g3 e show ?thesis by simp
qed

lemma evolve_all_total:
  assumes "grid_ok f"
  shows "\<exists>f'. evolve_all steps f = Inr f'
          \<and> map probabilityDensity (streamlines f') = map probabilityDensity (streamlines f)"
  using assms
proof (induction steps arbitrary: f)
  case Nil
  show ?case by simp
next
  case (Cons step steps)
  obtain dt rnd where st: "step = (dt, rnd)" by (cases step)
  obtain f1 where e: "flow_evolve dt rnd f = Inr f1" and g: "grid_ok f1"
    using flow_evolve_total [OF Cons.prems] by blast
  from Cons.IH [OF g] obtain f' where r: "evolve_all steps f1 = Inr f'"
    and d: "map probabilityDensity (streamlines f') = map probabilityDensity (streamlines f1)"
    by blast
  from flow_evolve_density [OF e] d
  have "map probabilityDensity (streamlines f') = map probabilityDensity (streamlines f)" by simp
  with r e st show ?case by simp
qed

lemma sums_of_densities:
  assumes "map probabilityDensity ss' = map probabilityDensity ss"
    and "\<forall>s \<in> set ss. sum_list (probabilityDensity s) = 1"
  shows "\<forall>s \<in> set ss'. sum_list (probabilityDensity s) = 1"
proof -
  have "set (map probabilityDensity ss') = set (map probabilityDensity ss)"
    using assms(1) by simp
  then have "probabilityDensity ` set ss' = probabilityDensity ` set ss" by simp
  with assms(2) show ?thesis by (metis imageE imageI)
qed

lemma initial_layers:
  "length (initializeInfoLayersWithQuantum f noise) = numLayers f"
  "k < numLayers f \<Longrightarrow>
     map length (density (initializeInfoLayersWithQuantum f noise ! k)) =
       replicate (grid_ny f) (grid_nx f)"
proof -
  show "length (initializeInfoLayersWithQuantum f noise) = numLayers f"
    by (simp add: initializeInfoLayersWithQuantum_def)
  assume "k < numLayers f"
  then have "density (initializeInfoLayersWithQuantum f noise ! k) =
      map (\<lambda>i. map (\<lambda>j.
                  max 0.01 (quantum_masa f k (grid_x f ! j) (grid_y f ! i)
                            + 0.03 * (noise k i j - 0.5)))
                [0..<grid_nx f]) [0..<grid_ny f]"
    by (simp add: initializeInfoLayersWithQuantum_def Let_def)
  then show "map length (density (initializeInfoLayersWithQuantum f noise ! k)) =
       replicate (grid_ny f) (grid_nx f)"
    by (simp add: comp_def map_replicate_const)
qed

lemma grid_ok_rows:
  assumes "ACTIVE_LAYER < length (masaInformativaLayers f)"
    and "map length (density (masaInformativaLayers f ! ACTIVE_LAYER)) =
         replicate (grid_ny f) (grid_nx f)"
    and "length (grid_x f) = grid_nx f" and "length (grid_y f) = grid_ny f"
  shows "grid_ok f"
proof -
  have "length (map length (density (masaInformativaLayers f ! ACTIVE_LAYER))) = grid_ny f"
    using assms(2) by simp
  then have l: "length (density (masaInformativaLayers f ! ACTIVE_LAYER)) = grid_ny f"
    by simp
  have "list_all (\<lambda>l. grid_nx f \<le> l)
      (take (grid_ny f) (map length (density (masaInformativaLayers f ! ACTIVE_LAYER))))"
    unfolding assms(2) by (simp add: list_all_iff)
  then have "list_all (\<lambda>row. grid_nx f \<le> length row)
      (take (grid_ny f) (density (masaInformativaLayers f ! ACTIVE_LAYER)))"
    by (simp only: rows_wide_lengths)
  then show ?thesis
    using assms(1,3,4) l by (simp add: grid_ok_def)
qed

text \<open>
  Claim C5. For every non-empty coordinate path the array that
  \<open>computeQuantumProbabilityDensity\<close> returns sums to 1 (exactly, hence within 1e-9). The
  constructor of the flow returns, every streamline it has produced has a non-empty path
  and a \<open>probabilityDensity\<close> that sums to 1, and every later \<open>evolve(dt)\<close> call returns
  and leaves these arrays as they are: after any run of \<open>evolve\<close> calls they are unchanged
  and still sum to 1.
\<close>

theorem streamline_density_sums_to_one:
  "(coords \<noteq> [] \<longrightarrow>
      sum_list (computeQuantumProbabilityDensity f coords sid) = 1
      \<and> \<bar>sum_list (computeQuantumProbabilityDensity f coords sid) - 1\<bar> \<le> 1 / 10 ^ 9)
   \<and> (\<exists>f0. new_QuantumLaminarFlow gridSize domainSize circuitA circuitB noise rnd = Inr f0
        \<and> (\<forall>s \<in> set (streamlines f0). coordinates s \<noteq> [] \<and> sum_list (probabilityDensity s) = 1)
        \<and> (\<exists>f'. evolve_all steps f0 = Inr f'
              \<and> map probabilityDensity (streamlines f') = map probabilityDensity (streamlines f0)
              \<and> (\<forall>s \<in> set (streamlines f').
                    sum_list (probabilityDensity s) = 1
                    \<and> \<bar>sum_list (probabilityDensity s) - 1\<bar> \<le> 1 / 10 ^ 9)))"
proof -
  define g0 where "g0 = \<lparr>grid_nx = gridSize, grid_ny = gridSize,
                 dom_Lx = fst domainSize, dom_Ly = snd domainSize,
                 numLayers = NUM_LAYERS, viscosityParam = VISCOSITY,
                 quantumCircuitA = circuitA, quantumCircuitB = circuitB,
                 dualCircuitMode = (circuitB \<noteq> None),
                 grid_x = map (\<lambda>i. real i * fst domainSize / (real gridSize - 1)) [0..<gridSize],
                 grid_y = map (\<lambda>i. real i * snd domainSize / (real gridSize - 1)) [0..<gridSize],
                 flow_time = 0, masaInformativaLayers = [], streamlines = [],
                 informationalReynolds = 0\<rparr>"
  define g1 where "g1 = g0\<lparr>masaInformativaLayers := initializeInfoLayersWithQuantum g0 noise\<rparr>"
  have n0: "numLayers g0 = 5" "grid_nx g0 = gridSize" "grid_ny g0 = gridSize"
    by (simp_all add: g0_def NUM_LAYERS_def)
  have a: "ACTIVE_LAYER < length (masaInformativaLayers g1)"
    by (simp add: g1_def initial_layers(1) n0 ACTIVE_LAYER_def)
  have "ACTIVE_LAYER < numLayers g0" by (simp add: n0 ACTIVE_LAYER_def)
  from initial_layers(2) [OF this, of noise]
  have rows: "map length (density (masaInformativaLayers g1 ! ACTIVE_LAYER)) =
      replicate (grid_ny g1) (grid_nx g1)"
    by (simp add: g1_def)
  have ok1: "grid_ok g1"
    by (rule grid_ok_rows [OF a rows]) (simp_all add: g1_def g0_def)
  obtain ss where ss: "defineQuantumStreamlines g1 rnd = Inr ss"
    using streamlines_loop_total [OF a] unfolding defineQuantumStreamlines_def by blast
  then have n: "\<forall>s \<in> set ss. normalised s"
    unfolding defineQuantumStreamlines_def
    by (rule streamlines_loop_normalised) simp
  define g3 where "g3 = g1\<lparr>streamlines := ss,
      informationalReynolds := computeInformationalReynolds (g1\<lparr>streamlines := ss\<rparr>)\<rparr>"
  have new: "new_QuantumLaminarFlow gridSize domainSize circuitA circuitB noise rnd = Inr g3"
    unfolding new_QuantumLaminarFlow_def Let_def g0_def [symmetric] g1_def [symmetric]
    by (simp add: ss g3_def)
  have s3: "streamlines g3 = ss" by (simp add: g3_def)
  have "grid_ok g3 = grid_ok g1"
    by (intro grid_ok_lengths) (simp_all add: g3_def)
  with ok1 have "grid_ok g3" by simp
  from evolve_all_total [OF this, of steps]
  obtain f' where e: "evolve_all steps g3 = Inr f'"
    and d: "map probabilityDensity (streamlines f') = map probabilityDensity ss"
    by (auto simp: s3)
  from n have one: "\<forall>s \<in> set ss. sum_list (probabilityDensity s) = 1"
    by (simp add: normalised_def)
  from sums_of_densities [OF d one]
  have "\<forall>s \<in> set (streamlines f'). sum_list (probabilityDensity s) = 1" .
  with new n e d s3 show ?thesis
    by (auto simp: density_sum normalised_def)
qed

theorem streamline_density_sums_to_one_witness:
  "\<exists>f0 f'. new_QuantumLaminarFlow GRID_SIZE (10, 10) (new_QuantumCircuit 5 ''A'' (Some freshGates)) None
        (\<lambda>l i j. 1 / 2) (\<lambda>i k. 1 / 2) = Inr f0
     \<and> sum_list (computeQuantumProbabilityDensity f0 [(1, 1), (2, 2)] 0) = 1
     \<and> evolve_all [(1 / 10, \<lambda>k idx c. 1 / 2)] f0 = Inr f'
     \<and> map probabilityDensity (streamlines f') = map probabilityDensity (streamlines f0)"
proof -
  obtain f0 f' where r: "new_QuantumLaminarFlow GRID_SIZE (10, 10)
        (new_QuantumCircuit 5 ''A'' (Some freshGates)) None (\<lambda>l i j. 1 / 2) (\<lambda>i k. 1 / 2) = Inr f0"
      "evolve_all [(1 / 10, \<lambda>k idx c. 1 / 2)] f0 = Inr f'"
      "map probabilityDensity (streamlines f') = map probabilityDensity (streamlines f0)"
    using streamline_density_sums_to_one [of "[]" undefined 0 GRID_SIZE "(10, 10)"
        "new_QuantumCircuit 5 ''A'' (Some freshGates)" None "\<lambda>l i j. 1 / 2" "\<lambda>i k. 1 / 2"
        "[(1 / 10, \<lambda>k idx c. 1 / 2)]"]
    by blast
  have "sum_list (computeQuantumProbabilityDensity f0 [(1, 1), (2, 2)] 0) = 1"
    using streamline_density_sums_to_one [of "[(1, 1), (2, 2)]" f0 0 GRID_SIZE "(10, 10)"
        "new_QuantumCircuit 5 ''A'' (Some freshGates)" None "\<lambda>l i j. 1 / 2" "\<lambda>i k. 1 / 2" "[]"]
    by simp
  with r show ?thesis by blast
qed

section \<open>Properties of the wormhole service\<close>

lemma foldE_collect:
  assumes "\<forall>i \<in> set ks. \<exists>st. g i = Inr st \<and> P st" and "\<forall>x \<in> set acc. P x"
  shows "\<exists>r. foldE (\<lambda>acc i. case g i of Inl e \<Rightarrow> Inl e | Inr st \<Rightarrow> Inr (acc @ [st])) acc ks = Inr r
           \<and> (\<forall>x \<in> set r. P x)"
  using assms
proof (induction ks arbitrary: acc)
  case Nil
  then show ?case by simp
next
  case (Cons k ks)
  from Cons.prems(1) obtain st where st: "g k = Inr st" "P st" by auto
  have "\<forall>x \<in> set (acc @ [st]). P x" using Cons.prems(2) st(2) by simp
  moreover have "\<forall>i \<in> set ks. \<exists>st. g i = Inr st \<and> P st" using Cons.prems(1) by simp
  ultimately obtain r where
    "foldE (\<lambda>acc i. case g i of Inl e \<Rightarrow> Inl e | Inr st \<Rightarrow> Inr (acc @ [st])) (acc @ [st]) ks = Inr r"
    "\<forall>x \<in> set r. P x"
    using Cons.IH by blast
  then show ?case by (simp add: st(1))
qed

lemma default_wormhole_points:
  "length (spacetime_curvature (new_QuantumWormhole WORMHOLE_CONFIG)) = 1000
   \<and> length (majorana_field (new_QuantumWormhole WORMHOLE_CONFIG)) = 1000"
  by (simp add: new_QuantumWormhole_def WORMHOLE_CONFIG_def calculateThroatGeometry_def
      calculateSpacetimeCurvature_def initializeMajoranaField_def Let_def)

lemma make_fragment_default:
  "\<exists>st. make_fragment (new_QuantumWormhole WORMHOLE_CONFIG) circuitA circuitB i = Inr st
     \<and> length (fragment_qubits st) = length (circuit_qubits circuitA) + length (circuit_qubits circuitB)"
  using default_wormhole_points by (simp add: make_fragment_def Let_def)

lemma createWormholeFragmentationSystem_total:
  "\<exists>sys. createWormholeFragmentationSystem circuitA circuitB = Inr sys
     \<and> (\<forall>st \<in> set (fragmented_states sys).
          length (fragment_qubits st) = length (circuit_qubits circuitA) + length (circuit_qubits circuitB))"
proof -
  let ?P = "\<lambda>st. length (fragment_qubits st) =
      length (circuit_qubits circuitA) + length (circuit_qubits circuitB)"
  have "\<forall>i \<in> set [0..<1024]. \<exists>st.
      make_fragment (new_QuantumWormhole WORMHOLE_CONFIG) circuitA circuitB i = Inr st \<and> ?P st"
    using make_fragment_default by blast
  moreover have "\<forall>x \<in> set ([] :: FragmentedState list). ?P x" by simp
  ultimately obtain r where
    "foldE (\<lambda>acc i. case make_fragment (new_QuantumWormhole WORMHOLE_CONFIG) circuitA circuitB i of
         Inl e \<Rightarrow> Inl e | Inr st \<Rightarrow> Inr (acc @ [st])) [] [0..<1024] = Inr r"
    "\<forall>x \<in> set r. ?P x"
    using foldE_collect [of "[0..<1024]"
        "make_fragment (new_QuantumWormhole WORMHOLE_CONFIG) circuitA circuitB" ?P "[]"]
    by blast
  then show ?thesis
    by (simp add: createWormholeFragmentationSystem_def Let_def)
qed

lemma accumulate_total:
  assumes "k < length (fragment_qubits st)"
  shows "\<exists>r'. accumulate st coef k r = Inr r' \<and> rq_coherence r' = rq_coherence r"
  using assms by (simp add: accumulate_def Let_def)

lemma fold_fragment_total:
  assumes "qubit_idx + 5 < length (fragment_qubits st)"
  shows "\<exists>ra rb. fold_fragment qubit_idx acc st = Inr (ra, rb)
     \<and> rq_coherence ra = rq_coherence (fst acc) \<and> rq_coherence rb = rq_coherence (snd acc)"
proof -
  from assms have a: "qubit_idx < length (fragment_qubits st)" by simp
  obtain ra where ra: "accumulate st (alpha st) qubit_idx (fst acc) = Inr ra"
    "rq_coherence ra = rq_coherence (fst acc)"
    using accumulate_total [OF a] by blast
  obtain rb where rb: "accumulate st (beta st) (qubit_idx + 5) (snd acc) = Inr rb"
    "rq_coherence rb = rq_coherence (snd acc)"
    using accumulate_total [OF assms] by blast
  show ?thesis by (simp add: fold_fragment_def ra rb)
qed

lemma fold_fragments_total:
  assumes "\<forall>st \<in> set sts. qubit_idx + 5 < length (fragment_qubits st)"
  shows "\<exists>ra rb. foldE (fold_fragment qubit_idx) acc sts = Inr (ra, rb)
     \<and> rq_coherence ra = rq_coherence (fst acc) \<and> rq_coherence rb = rq_coherence (snd acc)"
  using assms
proof (induction sts arbitrary: acc)
  case Nil
  show ?case by (cases acc) simp
next
  case (Cons st sts)
  from Cons.prems have "qubit_idx + 5 < length (fragment_qubits st)" by simp
  from fold_fragment_total [OF this, of acc] obtain ra rb where
    s: "fold_fragment qubit_idx acc st = Inr (ra, rb)"
    "rq_coherence ra = rq_coherence (fst acc)" "rq_coherence rb = rq_coherence (snd acc)"
    by blast
  from Cons.prems have "\<forall>st \<in> set sts. qubit_idx + 5 < length (fragment_qubits st)" by simp
  from Cons.IH [OF this, of "(ra, rb)"] s show ?case by simp
qed

lemma finish_coherence:
  assumes "rq_coherence r = 0"
  shows "0 \<le> rq_coherence (finish_reconstruction r) \<and> rq_coherence (finish_reconstruction r) < 1"
proof (cases "geometric_weight r > 0")
  case True
  then have "0 < tanh (geometric_weight r / 100)" by simp
  moreover have "tanh (geometric_weight r / 100) < 1" by (rule tanh_real_lt_1)
  ultimately show ?thesis using True by (simp add: finish_reconstruction_def)
next
  case False
  with assms show ?thesis by (simp add: finish_reconstruction_def)
qed

lemma reconstruct_loop:
  assumes "\<forall>st \<in> set sts. 10 \<le> length (fragment_qubits st)"
    and "\<forall>k \<in> set ks. k < 5"
    and "\<forall>q \<in> set (fst acc) \<union> set (snd acc). coherent q"
  shows "\<exists>qsA qsB. foldE (\<lambda>(qsA, qsB) qubit_idx.
               case foldE (fold_fragment qubit_idx) (empty_reconstruction, empty_reconstruction) sts of
                 Inl e \<Rightarrow> Inl e
               | Inr (ra, rb) \<Rightarrow>
                   Inr (qsA @ [finish_reconstruction ra], qsB @ [finish_reconstruction rb]))
             acc ks = Inr (qsA, qsB)
      \<and> length qsA = length (fst acc) + length ks \<and> length qsB = length (snd acc) + length ks
      \<and> (\<forall>q \<in> set qsA \<union> set qsB. coherent q)"
  using assms(2,3)
proof (induction ks arbitrary: acc)
  case Nil
  show ?case using Nil.prems by (cases acc) simp
next
  case (Cons k ks)
  obtain a b where acc: "acc = (a, b)" by (cases acc)
  from Cons.prems(1) have k: "k < 5" by simp
  with assms(1) have "\<forall>st \<in> set sts. k + 5 < length (fragment_qubits st)" by fastforce
  from fold_fragments_total [OF this, of "(empty_reconstruction, empty_reconstruction)"]
  obtain ra rb where f: "foldE (fold_fragment k) (empty_reconstruction, empty_reconstruction) sts = Inr (ra, rb)"
    and z: "rq_coherence ra = 0" "rq_coherence rb = 0"
    by (auto simp: empty_reconstruction_def)
  let ?acc' = "(a @ [finish_reconstruction ra], b @ [finish_reconstruction rb])"
  have c: "coherent (finish_reconstruction ra)" "coherent (finish_reconstruction rb)"
    using finish_coherence z by (simp_all add: coherent_def)
  have 1: "\<forall>k \<in> set ks. k < 5" using Cons.prems(1) by simp
  have 2: "\<forall>q \<in> set (fst ?acc') \<union> set (snd ?acc'). coherent q"
    using Cons.prems(2) c acc by auto
  from Cons.IH [OF 1 2] f acc show ?case by simp
qed

lemma foldl_coherence_bounds:
  assumes "\<forall>q \<in> set qs. coherent q"
  shows "z \<le> foldl (\<lambda>sum q. sum + rq_coherence q) z qs
       \<and> foldl (\<lambda>sum q. sum + rq_coherence q) z qs \<le> z + real (length qs)"
  using assms
proof (induction qs arbitrary: z)
  case Nil
  show ?case by simp
next
  case (Cons q qs)
  from Cons.prems have q: "0 \<le> rq_coherence q" "rq_coherence q < 1"
    by (simp_all add: coherent_def)
  from Cons.prems have "\<forall>q \<in> set qs. coherent q" by simp
  from Cons.IH [OF this, of "z + rq_coherence q"] q show ?case by simp
qed

lemma foldl_squares_nonneg:
  "0 \<le> z \<Longrightarrow> 0 \<le> foldl (\<lambda>sum v. sum + (v - m) ^ 2) (z::real) vs"
  by (induction vs arbitrary: z) simp_all

lemma exploration_bounds:
  "0 \<le> calculateExplorationFactor qs \<and> calculateExplorationFactor qs \<le> 1"
proof (cases "length (concat (map contributing_fragment_ids qs)) < 20")
  case True
  then show ?thesis by (simp add: calculateExplorationFactor_def Let_def)
next
  case False
  define vs where "vs = map (\<lambda>i. (real i / real (num_points WORMHOLE_CONFIG) - 0.5) * 10)
      (concat (map contributing_fragment_ids qs))"
  define m where "m = foldl (\<lambda>a b. a + b) 0 vs / real (length vs)"
  define variance where "variance = foldl (\<lambda>sum v. sum + (v - m) ^ 2) 0 vs / real (length vs)"
  have "0 \<le> foldl (\<lambda>sum v. sum + (v - m) ^ 2) 0 vs"
    by (rule foldl_squares_nonneg) simp
  then have "0 \<le> variance"
    by (simp add: variance_def)
  moreover have "calculateExplorationFactor qs = min 1.0 (variance / 8.0)"
    using False by (simp add: calculateExplorationFactor_def Let_def variance_def m_def vs_def)
  ultimately show ?thesis by simp
qed

text \<open>
  Claim C1. For every pair of 5-qubit input circuits, \<open>createWormholeFragmentationSystem\<close>
  returns, \<open>reconstructWithWormholeGeometry\<close> applied to its output returns, and the
  result has \<open>wormhole_efficiency\<close> in \<open>[0, 1]\<close> and five reconstructed qubits in each of
  \<open>circuit_A\<close> and \<open>circuit_B\<close>, each with \<open>coherence\<close> in \<open>[0, 1)\<close>.
\<close>

theorem reconstruction_bounds:
  assumes "length (circuit_qubits circuitA) = 5" and "length (circuit_qubits circuitB) = 5"
  shows "\<exists>sys r. createWormholeFragmentationSystem circuitA circuitB = Inr sys
     \<and> reconstructWithWormholeGeometry sys = Inr r
     \<and> 0 \<le> wormhole_efficiency r \<and> wormhole_efficiency r \<le> 1
     \<and> length (rc_qubits (circuit_A r)) = 5 \<and> length (rc_qubits (circuit_B r)) = 5
     \<and> (\<forall>q \<in> set (rc_qubits (circuit_A r)) \<union> set (rc_qubits (circuit_B r)).
           0 \<le> rq_coherence q \<and> rq_coherence q < 1)"
proof -
  obtain sys where sys: "createWormholeFragmentationSystem circuitA circuitB = Inr sys"
    and len: "\<forall>st \<in> set (fragmented_states sys).
          length (fragment_qubits st) = length (circuit_qubits circuitA) + length (circuit_qubits circuitB)"
    using createWormholeFragmentationSystem_total by blast
  from len assms have ten: "\<forall>st \<in> set (fragmented_states sys). 10 \<le> length (fragment_qubits st)"
    by simp
  have ks: "\<forall>k \<in> set [0..<5]. k < 5" by simp
  have e: "\<forall>q \<in> set (fst ([], [])) \<union> set (snd ([], [])). coherent q" by simp
  from reconstruct_loop [OF ten ks e]
  obtain qsA qsB where loop: "foldE (\<lambda>(qsA, qsB) qubit_idx.
               case foldE (fold_fragment qubit_idx) (empty_reconstruction, empty_reconstruction)
                      (fragmented_states sys) of
                 Inl e \<Rightarrow> Inl e
               | Inr (ra, rb) \<Rightarrow>
                   Inr (qsA @ [finish_reconstruction ra], qsB @ [finish_reconstruction rb]))
             ([], []) [0..<5] = Inr (qsA, qsB)"
    and la: "length qsA = 5" and lb: "length qsB = 5"
    and co: "\<forall>q \<in> set qsA \<union> set qsB. coherent q"
    by auto
  define fa where "fa = foldl (\<lambda>sum q. sum + rq_coherence q) 0 qsA / 5"
  define fb where "fb = foldl (\<lambda>sum q. sum + rq_coherence q) 0 qsB / 5"
  define ea where "ea = calculateExplorationFactor qsA"
  define eb where "eb = calculateExplorationFactor qsB"
  have "\<forall>q \<in> set qsA. coherent q" using co by simp
  from foldl_coherence_bounds [OF this, of 0] la have fa: "0 \<le> fa" "fa \<le> 1"
    by (simp_all add: fa_def)
  have "\<forall>q \<in> set qsB. coherent q" using co by simp
  from foldl_coherence_bounds [OF this, of 0] lb have fb: "0 \<le> fb" "fb \<le> 1"
    by (simp_all add: fb_def)
  have ea: "0 \<le> ea" "ea \<le> 1" using exploration_bounds [of qsA] by (simp_all add: ea_def)
  have eb: "0 \<le> eb" "eb \<le> 1" using exploration_bounds [of qsB] by (simp_all add: eb_def)
  define r where "r = \<lparr>circuit_A = \<lparr>rc_qubits = qsA, wormhole_fidelity = fa\<rparr>,
                    circuit_B = \<lparr>rc_qubits = qsB, wormhole_fidelity = fb\<rparr>,
                    wormhole_efficiency = 0.7 * ((fa + fb) / 2) + 0.3 * ((ea + eb) / 2),
                    rr_average_tunneling = average_tunneling sys,
                    geometric_corrections =
                      map (\<lambda>point. \<lparr>gc_position = gp_z point, gc_curvature = ricci_scalar point,
                             gc_energy = stress_energy point\<rparr>)
                        (take 10 (spacetime_curvature (wormhole sys)))\<rparr>"
  have res: "reconstructWithWormholeGeometry sys = Inr r"
    by (simp add: reconstructWithWormholeGeometry_def loop Let_def r_def fa_def fb_def ea_def eb_def)
  have "wormhole_efficiency r = 0.7 * ((fa + fb) / 2) + 0.3 * ((ea + eb) / 2)"
    by (simp add: r_def)
  then have eff: "0 \<le> wormhole_efficiency r \<and> wormhole_efficiency r \<le> 1"
    using fa fb ea eb by (simp add: field_simps)
  have "\<forall>q \<in> set (rc_qubits (circuit_A r)) \<union> set (rc_qubits (circuit_B r)).
           0 \<le> rq_coherence q \<and> rq_coherence q < 1"
    using co by (simp add: r_def coherent_def)
  with sys res eff la lb show ?thesis
    by (auto simp: r_def)
qed

theorem reconstruction_bounds_witness:
  "length (circuit_qubits (convertToCircuitType (new_QuantumCircuit 5 ''A'' (Some freshGates)))) = 5
   \<and> (\<exists>sys r. createWormholeFragmentationSystem
          (convertToCircuitType (new_QuantumCircuit 5 ''A'' (Some freshGates)))
          (convertToCircuitType (new_QuantumCircuit 5 ''B'' (Some freshGates))) = Inr sys
        \<and> reconstructWithWormholeGeometry sys = Inr r
        \<and> 0 \<le> wormhole_efficiency r \<and> wormhole_efficiency r \<le> 1
        \<and> length (rc_qubits (circuit_A r)) = 5)"
proof -
  have l: "\<And>cid. length (circuit_qubits (convertToCircuitType (new_QuantumCircuit 5 cid (Some freshGates)))) = 5"
  proof -
    fix cid
    have "core (new_QuantumCircuit 5 cid (Some freshGates)) =
        (5, cid, Some freshGates, map (\<lambda>i. cid @ show_nat i) [0..<5])"
      by (rule core_new)
    then have "length (qubits (new_QuantumCircuit 5 cid (Some freshGates))) = 5"
      by (rule length_qubits_of_core)
    then show "length (circuit_qubits (convertToCircuitType (new_QuantumCircuit 5 cid (Some freshGates)))) = 5"
      by (simp add: convertToCircuitType_def)
  qed
  from reconstruction_bounds [OF l [of "''A''"] l [of "''B''"]] l [of "''A''"]
  show ?thesis by blast
qed

section \<open>Properties of the seed\<close>

lemma index_of_nth:
  assumes "distinct xs" and "n < length xs"
  shows "index_of (xs ! n) xs = Some n"
  using assms
proof (induction xs arbitrary: n)
  case Nil
  then show ?case by simp
next
  case (Cons x xs)
  show ?case
  proof (cases n)
    case 0
    then show ?thesis by simp
  next
    case (Suc m)
    with Cons.prems have m: "m < length xs" and d: "distinct xs" and x: "x \<notin> set xs" by simp_all
    from m x have "xs ! m \<noteq> x" by (metis nth_mem)
    with Cons.IH [OF d m] Suc show ?thesis by simp
  qed
qed

lemma b64_alphabet_distinct: "distinct b64_alphabet"
  by (simp add: b64_alphabet_def)

lemma b64_alphabet_length: "length b64_alphabet = 64"
  by (simp add: b64_alphabet_def)

lemma b64_val_char: "n < 64 \<Longrightarrow> b64_val (b64_char n) = Some n"
  unfolding b64_val_def b64_char_def
  by (rule index_of_nth [OF b64_alphabet_distinct]) (simp add: b64_alphabet_length)

lemma b64_char_in: "n < 64 \<Longrightarrow> b64_char n \<in> set b64_alphabet"
  by (simp add: b64_char_def b64_alphabet_length)

lemma b64_char_plain:
  assumes "n < 64"
  shows "b64_char n \<noteq> CHR ''=''" and "\<not> ascii_whitespace (b64_char n)"
proof -
  have "CHR ''='' \<notin> set b64_alphabet" by (simp add: b64_alphabet_def)
  with b64_char_in [OF assms] show "b64_char n \<noteq> CHR ''=''" by metis
  have "\<forall>c \<in> set b64_alphabet. \<not> ascii_whitespace c"
    by (simp add: b64_alphabet_def ascii_whitespace_def)
  with b64_char_in [OF assms] show "\<not> ascii_whitespace (b64_char n)" by blast
qed


lemma b64_encode_parts: "b64_encode bs = map b64_char (b64_sextets bs) @ b64_padding bs"
  by (induction bs rule: b64_encode.induct) simp_all

lemma byte_parts:
  assumes "b < (256::nat)"
  shows "b div 4 < 64" and "b div 16 < 16" and "b div 64 < 4"
  using assms by simp_all

lemma join_div: "y < k \<Longrightarrow> (x * k + y) div k = (x::nat)"
  by simp

lemma join_mod: "y < k \<Longrightarrow> (x * k + y) mod k = (y::nat)"
  by simp

lemma join_less: "x < m \<Longrightarrow> y < k \<Longrightarrow> x * k + y < m * (k::nat)"
proof -
  assume "x < m" "y < k"
  then have "Suc x \<le> m" by simp
  then have "Suc x * k \<le> m * k" by (rule mult_le_mono1)
  with \<open>y < k\<close> show ?thesis by simp
qed

lemma sextets_of_three:
  assumes "a < 256" "b < 256" "c < (256::nat)"
  shows "a div 4 < 64" "(a mod 4) * 16 + b div 16 < 64" "(b mod 16) * 4 + c div 64 < 64"
    "c mod 64 < 64" "(b mod 16) * 4 < 64" "(a mod 4) * 16 < 64"
proof -
  show "a div 4 < 64" using assms by simp
  show "(a mod 4) * 16 + b div 16 < 64"
    using join_less [of "a mod 4" 4 "b div 16" 16] byte_parts(2) [OF assms(2)] by simp
  show "(b mod 16) * 4 + c div 64 < 64"
    using join_less [of "b mod 16" 16 "c div 64" 4] byte_parts(3) [OF assms(3)] by simp
  show "c mod 64 < 64" by simp
  show "(b mod 16) * 4 < 64"
    using join_less [of "b mod 16" 16 0 4] by simp
  show "(a mod 4) * 16 < 64"
    using join_less [of "a mod 4" 4 0 16] by simp
qed

lemma bytes_of_four:
  assumes "a < 256" "b < 256" "c < (256::nat)"
  shows "a div 4 * 4 + ((a mod 4) * 16 + b div 16) div 16 = a"
    and "(((a mod 4) * 16 + b div 16) mod 16) * 16 + ((b mod 16) * 4 + c div 64) div 4 = b"
    and "(((b mod 16) * 4 + c div 64) mod 4) * 64 + c mod 64 = c"
    and "(((a mod 4) * 16 + b div 16) mod 16) * 16 + ((b mod 16) * 4) div 4 = b"
    and "a div 4 * 4 + ((a mod 4) * 16) div 16 = a"
proof -
  have b16: "b div 16 < 16" and c64: "c div 64 < 4"
    using assms by simp_all
  have bm: "b div 16 mod 16 = b div 16" and cm: "c div 64 mod 4 = c div 64"
    using b16 c64 by simp_all
  show "a div 4 * 4 + ((a mod 4) * 16 + b div 16) div 16 = a"
    by (simp add: join_div [OF b16])
  show "(((a mod 4) * 16 + b div 16) mod 16) * 16 + ((b mod 16) * 4 + c div 64) div 4 = b"
    by (simp add: join_mod [OF b16] join_div [OF c64] bm)
  show "(((b mod 16) * 4 + c div 64) mod 4) * 64 + c mod 64 = c"
    by (simp add: join_mod [OF c64] cm)
  show "(((a mod 4) * 16 + b div 16) mod 16) * 16 + ((b mod 16) * 4) div 4 = b"
    by (simp add: join_mod [OF b16] bm)
  show "a div 4 * 4 + ((a mod 4) * 16) div 16 = a"
    by simp
qed

lemma b64_sextets_small:
  assumes "\<forall>b \<in> set bs. b < 256"
  shows "\<forall>v \<in> set (b64_sextets bs). v < 64"
  using assms
proof (induction bs rule: b64_sextets.induct)
  case (1 a b c rest)
  then have abc: "a < 256" "b < 256" "c < 256" and r: "\<forall>b \<in> set rest. b < 256" by simp_all
  from sextets_of_three [OF abc] "1.IH" [OF r] show ?case by simp
next
  case (2 a b)
  then have ab: "a < 256" "b < 256" by simp_all
  from sextets_of_three [OF ab ab(1)] show ?case by simp
next
  case (3 a)
  then have a: "a < 256" by simp
  from sextets_of_three [OF a a a] show ?case by simp
next
  case 4
  show ?case by simp
qed

lemma b64_decode_sextets:
  assumes "\<forall>b \<in> set bs. b < 256"
  shows "b64_decode (b64_sextets bs) = bs"
  using assms
proof (induction bs rule: b64_sextets.induct)
  case (1 a b c rest)
  then have abc: "a < 256" "b < 256" "c < 256" and r: "\<forall>b \<in> set rest. b < 256" by simp_all
  from bytes_of_four(1,2,3) [OF abc] "1.IH" [OF r] show ?case by simp
next
  case (2 a b)
  then have ab: "a < 256" "b < 256" by simp_all
  from bytes_of_four(1,4) [OF ab ab(1)] show ?case by simp
next
  case (3 a)
  then have a: "a < 256" by simp
  from bytes_of_four(5) [OF a a a] show ?case by simp
next
  case 4
  show ?case by simp
qed

lemma b64_lengths:
  "length (b64_sextets bs) mod 4 \<noteq> 1
   \<and> (length (b64_sextets bs) + length (b64_padding bs)) mod 4 = 0
   \<and> length (b64_padding bs) \<le> 2 \<and> set (b64_padding bs) \<subseteq> {CHR ''=''}
   \<and> (b64_padding bs \<noteq> [] \<longrightarrow> b64_sextets bs \<noteq> [])"
  by (induction bs rule: b64_sextets.induct) simp_all

lemma strip_padding_body:
  assumes "CHR ''='' \<notin> set body" and "length pad \<le> 2" and "set pad \<subseteq> {CHR ''=''}"
    and "(length body + length pad) mod 4 = 0" and "pad \<noteq> [] \<longrightarrow> body \<noteq> []"
  shows "strip_padding (body @ pad) = body"
proof -
  consider "pad = []" | "pad = ''=''" | "pad = ''==''"
  proof -
    assume c: "pad = [] \<Longrightarrow> thesis" "pad = ''='' \<Longrightarrow> thesis" "pad = ''=='' \<Longrightarrow> thesis"
    show thesis
    proof (cases pad)
      case Nil
      then show ?thesis by (rule c(1))
    next
      case (Cons x xs)
      with assms(3) have x: "x = CHR ''=''" by simp
      show ?thesis
      proof (cases xs)
        case Nil
        with Cons x show ?thesis by (intro c(2)) simp
      next
        case (Cons y ys)
        with \<open>pad = x # xs\<close> assms(2,3) have "y = CHR ''=''" "ys = []" by simp_all
        with Cons \<open>pad = x # xs\<close> x show ?thesis by (intro c(3)) simp
      qed
    qed
  qed
  then show ?thesis
  proof cases
    case 1
    with assms(1) have "body \<noteq> [] \<Longrightarrow> last body \<noteq> CHR ''=''"
      using last_in_set by metis
    with 1 assms(4) show ?thesis
      by (auto simp: strip_padding_def)
  next
    case 2
    with assms(5) have b: "body \<noteq> []" by simp
    with assms(1) have "last body \<noteq> CHR ''=''" using last_in_set by metis
    with 2 assms(4) b show ?thesis
      by (simp add: strip_padding_def butlast_append)
  next
    case 3
    with assms(4) show ?thesis
      by (simp add: strip_padding_def butlast_append)
  qed
qed

lemma atob_btoa: "\<exists>seed. btoa s = Inr seed \<and> atob seed = Inr s"
proof -
  define bs where "bs = map (of_char :: char \<Rightarrow> nat) s"
  define body where "body = map b64_char (b64_sextets bs)"
  have small: "\<forall>b \<in> set bs. b < 256" by (auto simp: bs_def)
  have v: "\<forall>v \<in> set (b64_sextets bs). v < 64" by (rule b64_sextets_small [OF small])
  have enc: "b64_encode bs = body @ b64_padding bs"
    by (simp add: body_def b64_encode_parts)
  have L: "length (b64_sextets bs) mod 4 \<noteq> 1"
    "(length (b64_sextets bs) + length (b64_padding bs)) mod 4 = 0"
    "length (b64_padding bs) \<le> 2" "set (b64_padding bs) \<subseteq> {CHR ''=''}"
    "b64_padding bs \<noteq> [] \<longrightarrow> b64_sextets bs \<noteq> []"
    using b64_lengths [of bs] by simp_all
  have noeq: "CHR ''='' \<notin> set body"
  proof
    assume "CHR ''='' \<in> set body"
    then obtain n where "n \<in> set (b64_sextets bs)" "b64_char n = CHR ''=''"
      by (auto simp: body_def)
    with v b64_char_plain(1) [of n] show False by simp
  qed
  have nows: "filter (\<lambda>c. \<not> ascii_whitespace c) (body @ b64_padding bs) = body @ b64_padding bs"
  proof -
    have "\<forall>c \<in> set body. \<not> ascii_whitespace c"
      using v b64_char_plain(2) by (auto simp: body_def)
    moreover have "\<forall>c \<in> set (b64_padding bs). \<not> ascii_whitespace c"
      using L(4) by (auto simp: ascii_whitespace_def)
    ultimately show ?thesis by simp
  qed
  have strip: "strip_padding (body @ b64_padding bs) = body"
    using L by (intro strip_padding_body noeq) (simp_all add: body_def)
  have len: "length body mod 4 \<noteq> 1" using L(1) by (simp add: body_def)
  have valid: "list_all (\<lambda>c. b64_val c \<noteq> None) body"
    using v by (auto simp: body_def list_all_iff b64_val_char)
  have vals: "map (\<lambda>c. the (b64_val c)) body = b64_sextets bs"
  proof -
    have "map (\<lambda>c. the (b64_val c)) body = map (\<lambda>n. the (b64_val (b64_char n))) (b64_sextets bs)"
      by (simp add: body_def comp_def)
    also have "\<dots> = map (\<lambda>n. n) (b64_sextets bs)"
      using v by (intro map_cong) (simp_all add: b64_val_char)
    finally show ?thesis by simp
  qed
  have "atob (body @ b64_padding bs) = Inr (map char_of (b64_decode (b64_sextets bs)))"
    unfolding atob_def Let_def nows strip using len valid by (simp add: vals)
  also have "\<dots> = Inr s"
    by (simp add: b64_decode_sextets [OF small]) (simp add: bs_def comp_def)
  finally show ?thesis
    by (simp add: btoa_def enc bs_def [symmetric])
qed

lemma skip_ws_plain: "\<not> json_ws c \<Longrightarrow> skip_ws (c # cs) = c # cs"
  by simp

lemma parse_key_plain:
  "plain_key k \<Longrightarrow> parse_key (k @ CHR 0x22 # rest) = Some (k, rest)"
  by (induction k) (simp_all add: plain_key_def)

lemma stringify_head: "\<exists>c cs. JSON_stringify v = c # cs \<and> opener c"
  by (cases v) (simp_all add: opener_def)

lemma stringify_elements_head:
  "xs \<noteq> [] \<Longrightarrow> \<exists>c cs. stringify_elements xs = c # cs \<and> opener c"
proof (cases xs)
  case Nil
  assume "xs \<noteq> []"
  with Nil show ?thesis by simp
next
  case (Cons x ys)
  obtain c cs where "JSON_stringify x = c # cs" "opener c"
    using stringify_head by blast
  with Cons show ?thesis by simp
qed

lemma opener_facts:
  assumes "opener c"
  shows "\<not> json_ws c" and "c \<noteq> CHR '']''" and "c \<noteq> CHR ''}''" and "c \<noteq> CHR '',''"
  using assms by (auto simp: opener_def json_ws_def)


lemma parse_true: "parse_value (Suc m) (''true'' @ rest) = Some (JBool True, rest)"
  by (simp add: json_ws_def)

lemma parse_false: "parse_value (Suc m) (''false'' @ rest) = Some (JBool False, rest)"
  by (simp add: json_ws_def)

lemma parse_empty_array: "parse_value (Suc m) (''[]'' @ rest) = Some (JArray [], rest)"
  by (simp add: json_ws_def)

lemma parse_empty_object: "parse_value (Suc m) (''{}'' @ rest) = Some (JObject [], rest)"
  by (simp add: json_ws_def)

lemma parse_array:
  assumes "opener c"
  shows "parse_value (Suc m) (CHR ''['' # c # cs) = parse_elements m [] (c # cs)"
  using opener_facts [OF assms] by (simp add: json_ws_def)

lemma parse_object:
  "parse_value (Suc m) (CHR ''{'' # CHR 0x22 # cs) = parse_members m [] (CHR 0x22 # cs)"
  by (simp add: json_ws_def)

lemma parse_element_last:
  assumes "parse_value m s = Some (v, CHR '']'' # rest)"
  shows "parse_elements (Suc m) acc s = Some (JArray (acc @ [v]), rest)"
  using assms by (simp add: json_ws_def)

lemma parse_element_more:
  assumes "parse_value m s = Some (v, CHR '','' # r)"
  shows "parse_elements (Suc m) acc s = parse_elements m (acc @ [v]) r"
  using assms by (simp add: json_ws_def)

lemma parse_member_last:
  assumes "plain_key k" and "parse_value m s = Some (v, CHR ''}'' # rest)"
  shows "parse_members (Suc m) acc (CHR 0x22 # k @ CHR 0x22 # CHR '':'' # s) =
     Some (JObject (acc @ [(k, v)]), rest)"
  using assms(2) parse_key_plain [OF assms(1)] by (simp add: json_ws_def)

lemma parse_member_more:
  assumes "plain_key k" and "parse_value m s = Some (v, CHR '','' # r)"
  shows "parse_members (Suc m) acc (CHR 0x22 # k @ CHR 0x22 # CHR '':'' # s) =
     parse_members m (acc @ [(k, v)]) r"
  using assms(2) parse_key_plain [OF assms(1)] by (simp add: json_ws_def)


declare parse_value.simps [simp del] parse_elements.simps [simp del] parse_members.simps [simp del]

lemma parse_stringify:
  "plain v \<Longrightarrow> calls v \<le> n \<Longrightarrow> parse_value n (JSON_stringify v @ rest) = Some (v, rest)"
  "xs \<noteq> [] \<Longrightarrow> plain_elements xs \<Longrightarrow> calls_elements xs \<le> n \<Longrightarrow>
     parse_elements n acc (stringify_elements xs @ CHR '']'' # rest) = Some (JArray (acc @ xs), rest)"
  "kvs \<noteq> [] \<Longrightarrow> plain_members kvs \<Longrightarrow> calls_members kvs \<le> n \<Longrightarrow>
     parse_members n acc' (stringify_members kvs @ CHR ''}'' # rest) = Some (JObject (acc' @ kvs), rest)"
proof (induction v and xs and kvs arbitrary: n rest and n acc rest and n acc' rest
    rule: JSON_stringify_stringify_elements_stringify_members.induct)
  case (1 b)
  then obtain m where n: "n = Suc m" by (cases n) simp_all
  show ?case
    using parse_true [of m rest] parse_false [of m rest] by (cases b) (simp_all add: n)
next
  case (2 xs)
  then obtain m where n: "n = Suc m" and m: "calls_elements xs \<le> m" by (cases n) simp_all
  show ?case
  proof (cases "xs = []")
    case True
    then show ?thesis using parse_empty_array [of m rest] by (simp add: n)
  next
    case False
    then obtain c cs where h: "stringify_elements xs = c # cs" "opener c"
      using stringify_elements_head by blast
    from "2.prems"(1) have p: "plain_elements xs" by simp
    have "parse_value n (JSON_stringify (JArray xs) @ rest) =
        parse_elements m [] (stringify_elements xs @ CHR '']'' # rest)"
      using parse_array [OF h(2), of m "cs @ CHR '']'' # rest"] by (simp add: n h(1))
    also have "\<dots> = Some (JArray ([] @ xs), rest)"
      by (rule "2.IH" [OF False p m])
    finally show ?thesis by simp
  qed
next
  case (3 kvs)
  then obtain m where n: "n = Suc m" and m: "calls_members kvs \<le> m" by (cases n) simp_all
  show ?case
  proof (cases kvs)
    case Nil
    then show ?thesis using parse_empty_object [of m rest] by (simp add: n)
  next
    case (Cons kv kvs')
    obtain k v where kv: "kv = (k, v)" by (cases kv)
    from Cons have ne: "kvs \<noteq> []" by simp
    from "3.prems"(1) have p: "plain_members kvs" by simp
    obtain cs where h: "stringify_members kvs = CHR 0x22 # cs"
      using Cons kv by simp
    have "parse_value n (JSON_stringify (JObject kvs) @ rest) =
        parse_members m [] (stringify_members kvs @ CHR ''}'' # rest)"
      using parse_object [of m "cs @ CHR ''}'' # rest"] by (simp add: n h)
    also have "\<dots> = Some (JObject ([] @ kvs), rest)"
      by (rule "3.IH" [OF ne p m])
    finally show ?thesis by simp
  qed
next
  case 4
  then show ?case by simp
next
  case (5 x xs)
  from "5.prems"(3) obtain m where n: "n = Suc m" and mx: "calls x \<le> m"
    and ms: "calls_elements xs \<le> m" by (cases n) simp_all
  from "5.prems"(2) have px: "plain x" and ps: "plain_elements xs" by simp_all
  show ?case
  proof (cases "xs = []")
    case True
    have "parse_value m (JSON_stringify x @ CHR '']'' # rest) = Some (x, CHR '']'' # rest)"
      by (rule "5.IH"(1) [OF px mx])
    from parse_element_last [OF this, of acc] True show ?thesis by (simp add: n)
  next
    case False
    have "parse_value m (JSON_stringify x @ CHR '','' # stringify_elements xs @ CHR '']'' # rest) =
        Some (x, CHR '','' # stringify_elements xs @ CHR '']'' # rest)"
      by (rule "5.IH"(1) [OF px mx])
    from parse_element_more [OF this, of acc]
    have "parse_elements n acc (stringify_elements (x # xs) @ CHR '']'' # rest) =
        parse_elements m (acc @ [x]) (stringify_elements xs @ CHR '']'' # rest)"
      using False by (simp add: n)
    also have "\<dots> = Some (JArray ((acc @ [x]) @ xs), rest)"
      by (rule "5.IH"(2) [OF False False ps ms])
    finally show ?thesis by simp
  qed
next
  case 6
  then show ?case by simp
next
  case (7 k v kvs)
  from "7.prems"(3) obtain m where n: "n = Suc m" and mv: "calls v \<le> m"
    and ms: "calls_members kvs \<le> m" by (cases n) simp_all
  from "7.prems"(2) have pk: "plain_key k" and pv: "plain v" and ps: "plain_members kvs"
    by simp_all
  show ?case
  proof (cases "kvs = []")
    case True
    have "parse_value m (JSON_stringify v @ CHR ''}'' # rest) = Some (v, CHR ''}'' # rest)"
      by (rule "7.IH"(1) [OF pv mv])
    from parse_member_last [OF pk this, of acc'] True show ?thesis by (simp add: n)
  next
    case False
    have "parse_value m (JSON_stringify v @ CHR '','' # stringify_members kvs @ CHR ''}'' # rest) =
        Some (v, CHR '','' # stringify_members kvs @ CHR ''}'' # rest)"
      by (rule "7.IH"(1) [OF pv mv])
    from parse_member_more [OF pk this, of acc']
    have "parse_members n acc' (stringify_members ((k, v) # kvs) @ CHR ''}'' # rest) =
        parse_members m (acc' @ [(k, v)]) (stringify_members kvs @ CHR ''}'' # rest)"
      using False by (simp add: n)
    also have "\<dots> = Some (JObject ((acc' @ [(k, v)]) @ kvs), rest)"
      by (rule "7.IH"(2) [OF False False ps ms])
    finally show ?thesis by simp
  qed
qed

lemma calls_le_length:
  "calls v \<le> length (JSON_stringify v)"
  "calls_elements xs \<le> Suc (length (stringify_elements xs))"
  "calls_members kvs \<le> Suc (length (stringify_members kvs))"
  by (induction v and xs and kvs rule: JSON_stringify_stringify_elements_stringify_members.induct)
    (auto simp: le_Suc_eq)

lemma JSON_parse_stringify:
  assumes "plain v"
  shows "JSON_parse (JSON_stringify v) = Inr v"
proof -
  have "calls v \<le> Suc (length (JSON_stringify v))"
    using calls_le_length(1) [of v] by simp
  from parse_stringify(1) [OF assms this, of "[]"]
  show ?thesis by (simp add: JSON_parse_def)
qed


lemma plain_bools: "plain_elements (map JBool bs)"
  by (induction bs) simp_all

lemma plain_gates: "plain (js_of_gates g)"
  by (simp add: js_of_gates_def plain_key_def plain_bools)

lemma plain_configuration: "plain (js_of_configuration cfg)"
  using plain_gates [of "selectedGatesA cfg"] plain_gates [of "selectedGatesB cfg"]
  by (simp add: js_of_configuration_def plain_key_def)

lemma b64_encode_nonempty: "bs \<noteq> [] \<Longrightarrow> b64_encode bs \<noteq> []"
  by (induction bs rule: b64_encode.induct) simp_all

text \<open>
  Claim C9. For every gate configuration (\<open>selectedGatesA\<close>, \<open>selectedGatesB\<close>,
  \<open>circuitBEnabled\<close>, \<open>interCircuitEntanglementEnabled\<close>), \<open>handleGenerateSeed\<close>
  produces a seed, the base64 text of the JSON text of the configuration object;
  decoding the seed gives back that JSON text, parsing it gives back an object equal to the
  original, and \<open>handleLoadSeed\<close> passes the four original values to the setters.
\<close>

theorem seed_round_trip:
  "\<exists>seed. handleGenerateSeed cfg = Inr seed
     \<and> atob seed = Inr (JSON_stringify (js_of_configuration cfg))
     \<and> JSON_parse (JSON_stringify (js_of_configuration cfg)) = Inr (js_of_configuration cfg)
     \<and> handleLoadSeed seed =
         Inr (Some (Some (js_of_gates (selectedGatesA cfg)), Some (js_of_gates (selectedGatesB cfg)),
                    Some (JBool (circuitBEnabled cfg)),
                    Some (JBool (interCircuitEntanglementEnabled cfg))))"
proof -
  let ?js = "JSON_stringify (js_of_configuration cfg)"
  obtain seed where g: "btoa ?js = Inr seed" and a: "atob seed = Inr ?js"
    using atob_btoa by blast
  have p: "JSON_parse ?js = Inr (js_of_configuration cfg)"
    by (rule JSON_parse_stringify [OF plain_configuration])
  have "?js \<noteq> []" by (simp add: js_of_configuration_def)
  then have "map (of_char :: char \<Rightarrow> nat) ?js \<noteq> []" by simp
  then have "b64_encode (map of_char ?js) \<noteq> []" by (rule b64_encode_nonempty)
  with g have ne: "seed \<noteq> []" by (auto simp: btoa_def)
  have props: "get_property (js_of_configuration cfg) ''selectedGatesA'' = Some (js_of_gates (selectedGatesA cfg))"
    "get_property (js_of_configuration cfg) ''selectedGatesB'' = Some (js_of_gates (selectedGatesB cfg))"
    "get_property (js_of_configuration cfg) ''circuitBEnabled'' = Some (JBool (circuitBEnabled cfg))"
    "get_property (js_of_configuration cfg) ''interCircuitEntanglementEnabled'' =
       Some (JBool (interCircuitEntanglementEnabled cfg))"
    by (simp_all add: js_of_configuration_def)
  have "handleLoadSeed seed =
         Inr (Some (Some (js_of_gates (selectedGatesA cfg)), Some (js_of_gates (selectedGatesB cfg)),
                    Some (JBool (circuitBEnabled cfg)),
                    Some (JBool (interCircuitEntanglementEnabled cfg))))"
    using ne by (simp add: handleLoadSeed_def a p props)
  with g a p show ?thesis
    by (auto simp: handleGenerateSeed_def)
qed

theorem seed_round_trip_witness:
  "\<exists>seed. handleGenerateSeed mixed_configuration = Inr seed
     \<and> handleLoadSeed seed =
         Inr (Some (Some (js_of_gates (selectedGatesA mixed_configuration)),
                    Some (js_of_gates (selectedGatesB mixed_configuration)),
                    Some (JBool True), Some (JBool False)))"
proof -
  have "circuitBEnabled mixed_configuration = True"
    "interCircuitEntanglementEnabled mixed_configuration = False"
    by (simp_all add: mixed_configuration_def)
  with seed_round_trip [of mixed_configuration] show ?thesis by auto
qed

end
